theory Spec2Isabelle
  imports Complex_Main "HOL-Library.Word"
begin

section \<open>Mixtral sparse mixture-of-experts decoder (modelling\_mixtral\_flax.py)\<close>

text \<open>
  The embedding follows \<^verbatim>\<open>modelling_mixtral_flax.py\<close>. Arrays are lists (a matrix is
  the list of its rows), exceptions are values of \<open>error + 'a\<close>, and floating-point numbers
  are exact reals, except where the subsection on floating-point effects brings in the
  underflow of the float32 exponential and the rounding of the cast to bfloat16.
  Division by zero is \<open>0\<close> in HOL where the source produces a NaN; every statement below
  says when it relies on a non-empty axis.
\<close>

datatype error =
    ValueError | TypeError | AttributeError | ZeroDivisionError | AssertionError | IndexError
  | KeyError

subsection \<open>Library operations used by the routing code\<close>

text \<open>
  \<^verbatim>\<open>jax.lax.top_k(operand, k)\<close> on one row: the \<open>k\<close> largest values in descending
  order with their indices; of equal values the one with the lower index comes first; a
  \<open>k\<close> larger than the row is rejected. \<open>sort_key\<close> is a stable insertion sort, so
  sorting the indices by negated value gives this order.
\<close>

definition argsort_desc :: "real list \<Rightarrow> nat list" where
  "argsort_desc operand = sort_key (\<lambda>i. - (operand ! i)) [0..<length operand]"

definition top_k :: "real list \<Rightarrow> nat \<Rightarrow> error + (real list \<times> nat list)" where
  "top_k operand k =
     (if k \<le> length operand
      then (let order = take k (argsort_desc operand)
            in Inr (map (\<lambda>i. operand ! i) order, order))
      else Inl ValueError)"

text \<open>\<^verbatim>\<open>jax.nn.softmax\<close> along the last axis.\<close>

definition softmax :: "real list \<Rightarrow> real list" where
  "softmax xs = map (\<lambda>x. exp x / sum_list (map exp xs)) xs"

text \<open>\<^verbatim>\<open>jnp.mean\<close> of a flat array.\<close>

definition mean :: "real list \<Rightarrow> real" where
  "mean xs = sum_list xs / real (length xs)"

text \<open>\<^verbatim>\<open>jax.nn.one_hot(x, n)\<close>: an index outside \<open>0..<n\<close> gives the zero vector.\<close>

definition one_hot :: "nat \<Rightarrow> nat \<Rightarrow> real list" where
  "one_hot x n = map (\<lambda>c. if c = x then 1 else 0) [0..<n]"

text \<open>An operation applied to every row fails when it fails on one of them.\<close>

fun collect :: "(error + 'a) list \<Rightarrow> error + 'a list" where
  "collect [] = Inr []"
| "collect (r # rs) =
     (case r of
        Inl e \<Rightarrow> Inl e
      | Inr v \<Rightarrow> (case collect rs of Inl e \<Rightarrow> Inl e | Inr vs \<Rightarrow> Inr (v # vs)))"

subsection \<open>Routing weights: the block and the loss function\<close>

text \<open>
  \<^verbatim>\<open>FlaxMixtralSparseMoeBlock.__call__\<close>, lines 688 to 690, on the logits of one token:
  softmax over all experts, \<open>top_k\<close>, then division by the sum of the selected weights.
\<close>

definition renormalize :: "real list \<Rightarrow> real list" where
  "renormalize ws = map (\<lambda>w. w / sum_list ws) ws"

definition moe_routing_row :: "nat \<Rightarrow> real list \<Rightarrow> error + (real list \<times> nat list)" where
  "moe_routing_row num_experts_per_tok router_logits =
     (case top_k (softmax router_logits) num_experts_per_tok of
        Inl e \<Rightarrow> Inl e
      | Inr (routing_weights, selected_experts) \<Rightarrow>
          Inr (renormalize routing_weights, selected_experts))"

definition moe_routing :: "nat \<Rightarrow> real list list \<Rightarrow> error + (real list \<times> nat list) list" where
  "moe_routing num_experts_per_tok router_logits =
     collect (map (moe_routing_row num_experts_per_tok) router_logits)"

text \<open>
  \<^verbatim>\<open>jax_load_balancing_loss_func\<close>, lines 288 and 289, on one row: \<open>top_k\<close> of the raw
  logits, then softmax over the selected values.
\<close>

definition loss_routing_row :: "nat \<Rightarrow> real list \<Rightarrow> error + (real list \<times> nat list)" where
  "loss_routing_row k gate_logits =
     (case top_k gate_logits k of
        Inl e \<Rightarrow> Inl e
      | Inr (routing_weights, selected_experts) \<Rightarrow>
          Inr (softmax routing_weights, selected_experts))"

definition loss_routing :: "nat \<Rightarrow> real list list \<Rightarrow> error + (real list \<times> nat list) list" where
  "loss_routing k gate_logits = collect (map (loss_routing_row k) gate_logits)"

subsection \<open>Floating-point effects in the routing block\<close>

text \<open>
  The block computes lines 687 to 690 in float32 and casts the weights to the dtype of the
  hidden states on line 691; that dtype is bfloat16 unless the model is built with
  another one. Two effects of this are modelled, each as a function on reals.

  \<^verbatim>\<open>jax.nn.softmax\<close> subtracts the maximum of the row, exponentiates and divides by the
  sum. In float32 the exponential of an argument at or below \<open>-104\<close> is zero: the
  smallest positive float32 is \<open>2^-149\<close> and \<open>exp (-104) < 2^-150\<close>. \<open>softmax_f32\<close> has
  this underflow; the rounding of the other float32 operations is not modelled.
\<close>

definition exp_f32 :: "real \<Rightarrow> real" where
  "exp_f32 y = (if y \<le> - 104 then 0 else exp y)"

definition softmax_f32 :: "real list \<Rightarrow> real list" where
  "softmax_f32 xs =
     (let m = fold max (tl xs) (hd xs);
          unnormalized = map (\<lambda>x. exp_f32 (x - m)) xs
      in map (\<lambda>u. u / sum_list unnormalized) unnormalized)"

text \<open>
  \<^verbatim>\<open>astype(jnp.bfloat16)\<close>: a bfloat16 has 8 significant bits, so between \<open>2^e\<close> and
  \<open>2^(e+1)\<close> its values are \<open>2^(e-7)\<close> apart; below the smallest normal value \<open>2^-126\<close>
  they stay \<open>2^-133\<close> apart. The cast rounds to the nearest value, a tie to the one with
  an even last bit. Overflow is left out: a routing weight is at most 1.
\<close>

definition round_half_even :: "real \<Rightarrow> int" where
  "round_half_even y =
     (let f = \<lfloor>y\<rfloor>
      in if y - of_int f < 1 / 2 then f
         else if 1 / 2 < y - of_int f then f + 1
         else if even f then f else f + 1)"

definition astype_bfloat16 :: "real \<Rightarrow> real" where
  "astype_bfloat16 x =
     (if x = 0 then 0
      else (let e = max (- 126) \<lfloor>log 2 \<bar>x\<bar>\<rfloor>;
                q = 2 powr (of_int e - 7)
            in of_int (round_half_even (x / q)) * q))"

text \<open>
  Lines 688 to 691 on the logits of one token, with the softmax that the array library
  computes and the cast of line 691 as parameters: \<open>moe_routing_row\<close> above is
  \<open>moe_routing_row_with softmax (\<lambda>w. w)\<close>, and the block as it runs by default is
  \<open>moe_routing_row_with softmax_f32 astype_bfloat16\<close>. Lines 288 and 289 of the loss
  function likewise.
\<close>

definition moe_routing_row_with ::
  "(real list \<Rightarrow> real list) \<Rightarrow> (real \<Rightarrow> real) \<Rightarrow> nat \<Rightarrow> real list \<Rightarrow>
     error + (real list \<times> nat list)" where
  "moe_routing_row_with softmax_impl cast k router_logits =
     (case top_k (softmax_impl router_logits) k of
        Inl e \<Rightarrow> Inl e
      | Inr (routing_weights, selected_experts) \<Rightarrow>
          Inr (map cast (renormalize routing_weights), selected_experts))"



subsection \<open>The load-balancing loss\<close>

text \<open>
  Reductions along one axis of a nested array. \<open>max_rows\<close> is \<^verbatim>\<open>jnp.max(..., axis=-2)\<close>
  on the rows of one matrix (the source applies it to an axis of length one), and
  \<open>mean_rows n\<close> is \<^verbatim>\<open>jnp.mean(..., axis=-2)\<close> on a matrix with \<open>n\<close> columns.
\<close>

fun max_rows :: "real list list \<Rightarrow> real list" where
  "max_rows [] = []"
| "max_rows [r] = r"
| "max_rows (r # rs) = map2 max r (max_rows rs)"

definition mean_rows :: "nat \<Rightarrow> real list list \<Rightarrow> real list" where
  "mean_rows n m = map (\<lambda>c. mean (map (\<lambda>r. r ! c) m)) [0..<n]"

text \<open>
  The argument \<^verbatim>\<open>gate_logits\<close> is \<^verbatim>\<open>None\<close>, a tuple of per-layer arrays or one array;
  \<^verbatim>\<open>jnp.concatenate\<close> rejects an empty tuple.
\<close>

datatype gate_logits_arg =
    NoLogits
  | LogitsTuple "real list list list"
  | LogitsArray "real list list"

definition jnp_concatenate :: "real list list list \<Rightarrow> error + real list list" where
  "jnp_concatenate arrays = (if arrays = [] then Inl ValueError else Inr (concat arrays))"

text \<open>
  Lines 288 to 298 on a two-dimensional array of logits (tokens by experts). The selected
  indices get a new last axis (line 293), the one-hot mask is reduced by \<open>max\<close> over that
  axis (line 294), its mean is taken over the axis of the \<open>k\<close> selections (line 295), and
  the mean of the top-k weights is taken per token (line 296).
\<close>

definition load_balancing_loss_array :: "real list list \<Rightarrow> nat \<Rightarrow> nat \<Rightarrow> error + real" where
  "load_balancing_loss_array gate_logits num_experts k =
     (case loss_routing k gate_logits of
        Inl e \<Rightarrow> Inl e
      | Inr routing \<Rightarrow>
          (let routing_weights = map fst routing;
               selected_experts = map (\<lambda>r. map (\<lambda>s. [s]) (snd r)) routing;
               expert_mask =
                 map (map (\<lambda>ss. max_rows (map (\<lambda>s. one_hot s num_experts) ss)))
                   selected_experts;
               tokens_per_group_and_expert = map (mean_rows num_experts) expert_mask;
               router_prob_per_group_and_expert = map mean routing_weights
           in Inr (mean (concat (map2 (\<lambda>row p. map (\<lambda>x. x * p) row)
                     tokens_per_group_and_expert router_prob_per_group_and_expert))
                   * (real num_experts)\<^sup>2)))"

fun jax_load_balancing_loss_func :: "gate_logits_arg \<Rightarrow> nat \<Rightarrow> nat \<Rightarrow> error + real" where
  "jax_load_balancing_loss_func NoLogits num_experts k = Inr 0"
| "jax_load_balancing_loss_func (LogitsTuple gs) num_experts k =
     (case jnp_concatenate gs of
        Inl e \<Rightarrow> Inl e
      | Inr g \<Rightarrow> load_balancing_loss_array g num_experts k)"
| "jax_load_balancing_loss_func (LogitsArray g) num_experts k =
     load_balancing_loss_array g num_experts k"

text \<open>
  The loss as the specification words it: with the routing decision of the routing block
  (top-k softmax weights and selected experts), the fraction of tokens routed to an expert
  and the mean routing probability that the tokens give to that expert, both per expert;
  the loss is \<open>num_experts\<^sup>2\<close> times the mean of their product over tokens and experts.
\<close>

definition token_fraction_per_expert :: "(real list \<times> nat list) list \<Rightarrow> nat \<Rightarrow> real" where
  "token_fraction_per_expert routing e =
     real (length (filter (\<lambda>r. e \<in> set (snd r)) routing)) / real (length routing)"

definition mean_routing_prob_per_expert :: "(real list \<times> nat list) list \<Rightarrow> nat \<Rightarrow> real" where
  "mean_routing_prob_per_expert routing e =
     sum_list (map (\<lambda>r. sum_list (map (\<lambda>(w, s). if s = e then w else 0) (zip (fst r) (snd r))))
       routing) / real (length routing)"

definition spec_load_balancing_loss :: "real list list \<Rightarrow> nat \<Rightarrow> nat \<Rightarrow> error + real" where
  "spec_load_balancing_loss gate_logits num_experts k =
     (case moe_routing k gate_logits of
        Inl e \<Rightarrow> Inl e
      | Inr routing \<Rightarrow>
          Inr ((real num_experts)\<^sup>2
               * mean (concat (map (\<lambda>t. map (\<lambda>e. token_fraction_per_expert routing e
                                              * mean_routing_prob_per_expert routing e)
                                    [0..<num_experts]) routing))))"

text \<open>Renaming the experts: column \<open>j\<close> of the permuted logits is column \<open>p j\<close>.\<close>

definition permute_experts :: "(nat \<Rightarrow> nat) \<Rightarrow> real list list \<Rightarrow> real list list" where
  "permute_experts p gate_logits =
     map (\<lambda>row. map (\<lambda>j. row ! p j) [0..<length row]) gate_logits"

subsection \<open>Expert feed-forward units and the sparse block\<close>

text \<open>
  A \<^verbatim>\<open>Dense\<close> layer without bias. Its kernel is kept as the list of its columns, one
  per output feature, so that the number of output features is the length of the kernel.
\<close>

definition dense :: "real list list \<Rightarrow> real list \<Rightarrow> real list" where
  "dense kernel_cols x = map (\<lambda>col. sum_list (map2 (*) x col)) kernel_cols"

record expert_params =
  w1 :: "real list list"
  w3 :: "real list list"
  w2 :: "real list list"

text \<open>
  \<^verbatim>\<open>FlaxMixtralBLockSparseTop2MLP.__call__\<close> (line 584). The activation
  \<^verbatim>\<open>ACT2FN[config.hidden_act]\<close> is defined outside this file and is a parameter.
\<close>

definition FlaxMixtralBLockSparseTop2MLP_call ::
  "(real \<Rightarrow> real) \<Rightarrow> expert_params \<Rightarrow> real list \<Rightarrow> real list" where
  "FlaxMixtralBLockSparseTop2MLP_call act_fn p x =
     dense (w2 p) (map2 (*) (map act_fn (dense (w1 p) x)) (dense (w3 p) x))"

text \<open>
  \<^verbatim>\<open>jnp.nonzero(mask, size=n)\<close> on a matrix: the row and column indices of the non-zero
  entries in row-major order, padded with zeros (or cut) to length \<open>n\<close>.
\<close>

definition jnp_nonzero :: "real list list \<Rightarrow> nat \<Rightarrow> nat list \<times> nat list" where
  "jnp_nonzero m n =
     (let found = concat (map (\<lambda>j. map (\<lambda>t. (j, t))
                    (filter (\<lambda>t. m ! j ! t \<noteq> 0) [0..<length (m ! j)])) [0..<length m]);
          padded = take n (found @ replicate n (0, 0))
      in (map fst padded, map snd padded))"

text \<open>
  Reading \<^verbatim>\<open>x[i]\<close> with an array index: a negative index counts from the end and an
  index out of range is clamped. An empty axis has no element to clamp to; the read is
  given the default there, and no statement below relies on that value.
\<close>

definition jnp_get :: "'a \<Rightarrow> 'a list \<Rightarrow> int \<Rightarrow> 'a" where
  "jnp_get d xs i =
     (let n = int (length xs); j = (if i < 0 then i + n else i)
      in if xs = [] then d else xs ! nat (max 0 (min (n - 1) j)))"

text \<open>
  \<^verbatim>\<open>x.at[i].set(v)\<close> builds a new array and leaves \<open>x\<close> as it is; an index out of
  range changes nothing.
\<close>

definition at_set :: "'a list \<Rightarrow> int \<Rightarrow> 'a \<Rightarrow> 'a list" where
  "at_set xs i v =
     (let n = int (length xs); j = (if i < 0 then i + n else i)
      in if 0 \<le> j \<and> j < n then xs[nat j := v] else xs)"

text \<open>
  The helper of lines 618 to 627. Every pass of its loop evaluates
  \<^verbatim>\<open>final_hidden_states_.at[top_x[i]].set(...)\<close> and drops the array this builds; the
  function returns the array it was given.
\<close>

definition custom_index_add_without_index_add ::
  "real list list \<Rightarrow> int list \<Rightarrow> nat list \<Rightarrow> real list list \<Rightarrow> real list list" where
  "custom_index_add_without_index_add final_hidden_states' top_x' idx' current_hidden_states' =
     foldl (\<lambda>final i.
         (let dropped = at_set final (top_x' ! i)
                          (map2 (+) (jnp_get [] final (top_x' ! i)) (current_hidden_states' ! i))
          in final))
       final_hidden_states' [0..<length top_x']"

text \<open>
  One pass of the loop over the experts (lines 630 to 646); \<open>n_tokens\<close> is
  \<^verbatim>\<open>selected_mask.shape[-1]\<close>.
\<close>

definition expert_pass ::
  "(real \<Rightarrow> real) \<Rightarrow> real list list \<Rightarrow> real list list \<Rightarrow> nat \<Rightarrow>
     real list list \<Rightarrow> real list list \<times> expert_params \<Rightarrow> real list list" where
  "expert_pass act_fn hidden_states routing_weights n_tokens final_hidden_states sl =
     (let selected_mask = fst sl; expert_layer = snd sl;
          nz = jnp_nonzero selected_mask n_tokens;
          idx = fst nz;
          top_x = map (\<lambda>t. if t \<noteq> 0 then int t else - 1) (snd nz)
      in if length top_x = 0 then final_hidden_states
         else
           (let current_state = map (jnp_get [] hidden_states) top_x;
                current_hidden_states =
                  map2 (\<lambda>row w. map (\<lambda>x. x * w) row)
                    (map (FlaxMixtralBLockSparseTop2MLP_call act_fn expert_layer) current_state)
                    (map2 (\<lambda>t j. jnp_get 0 (jnp_get [] routing_weights t) (int j)) top_x idx)
            in custom_index_add_without_index_add final_hidden_states top_x idx
                 current_hidden_states))"

text \<open>
  \<^verbatim>\<open>FlaxMixtralBlocKSparesTop2MLPCollection.__call__\<close> (lines 605 to 648); the result
  is the list of the \<open>batch_size * sequence_length\<close> rows, before the final reshape.
\<close>

definition FlaxMixtralBlocKSparesTop2MLPCollection_call ::
  "(real \<Rightarrow> real) \<Rightarrow> expert_params list \<Rightarrow> real list list list \<Rightarrow> real list list \<Rightarrow>
     real list list \<Rightarrow> nat \<Rightarrow> nat \<Rightarrow> nat \<Rightarrow> real list list" where
  "FlaxMixtralBlocKSparesTop2MLPCollection_call act_fn layers expert_mask hidden_states
       routing_weights batch_size sequence_length hidden_dim =
     foldl (expert_pass act_fn hidden_states routing_weights (length hidden_states))
       (replicate (batch_size * sequence_length) (replicate hidden_dim 0))
       (map (\<lambda>expert_idx. (jnp_get [] expert_mask (int expert_idx), layers ! expert_idx))
          [0..<length layers])"

text \<open>
  A hidden-state array of shape \<open>(batch, sequence, hidden)\<close> is kept as its dimensions
  and its \<open>batch * sequence\<close> rows, so that \<^verbatim>\<open>reshape(-1, hidden_dim)\<close> and the
  reshape back only read or set the dimensions.
\<close>

record hidden_array =
  batch :: nat
  seq_len :: nat
  hidden :: nat
  tokens :: "real list list"

record moe_block_params =
  gate :: "real list list"
  experts :: "expert_params list"

text \<open>
  \<^verbatim>\<open>FlaxMixtralSparseMoeBlock.__call__\<close> (lines 684 to 700). The gate has one column
  per expert, \<open>expert_mask\<close> is the one-hot mask transposed to (expert, selection, token).
\<close>

definition FlaxMixtralSparseMoeBlock_call ::
  "(real \<Rightarrow> real) \<Rightarrow> nat \<Rightarrow> moe_block_params \<Rightarrow> hidden_array \<Rightarrow>
     error + (hidden_array \<times> real list list)" where
  "FlaxMixtralSparseMoeBlock_call act_fn num_experts_per_tok params hidden_states =
     (let router_logits = map (dense (gate params)) (tokens hidden_states)
      in case moe_routing num_experts_per_tok router_logits of
           Inl e \<Rightarrow> Inl e
         | Inr routing \<Rightarrow>
             (let routing_weights = map fst routing;
                  selected_experts = map snd routing;
                  num_local_experts = length (gate params);
                  expert_mask =
                    map (\<lambda>e. map (\<lambda>j. map (\<lambda>sel. one_hot (sel ! j) num_local_experts ! e)
                                      selected_experts)
                               [0..<num_experts_per_tok])
                      [0..<num_local_experts]
              in Inr (hidden_states\<lparr>tokens :=
                        FlaxMixtralBlocKSparesTop2MLPCollection_call act_fn (experts params)
                          expert_mask (tokens hidden_states) routing_weights
                          (batch hidden_states) (seq_len hidden_states) (hidden hidden_states)\<rparr>,
                      router_logits)))"

text \<open>
  The combined output as the specification words it: at a token, the sum over its selected
  experts of the routing weight times the expert's output on that token.
\<close>

definition moe_weighted_sum ::
  "(real \<Rightarrow> real) \<Rightarrow> expert_params list \<Rightarrow> nat \<Rightarrow> real list \<Rightarrow> real list \<times> nat list \<Rightarrow> real list" where
  "moe_weighted_sum act_fn layers hidden_dim x r =
     foldr (map2 (+))
       (map2 (\<lambda>w s. map (\<lambda>y. w * y) (FlaxMixtralBLockSparseTop2MLP_call act_fn (layers ! s) x))
          (fst r) (snd r))
       (replicate hidden_dim 0)"

definition spec_moe_block ::
  "(real \<Rightarrow> real) \<Rightarrow> nat \<Rightarrow> moe_block_params \<Rightarrow> hidden_array \<Rightarrow>
     error + (hidden_array \<times> real list list)" where
  "spec_moe_block act_fn num_experts_per_tok params hidden_states =
     (let router_logits = map (dense (gate params)) (tokens hidden_states)
      in case moe_routing num_experts_per_tok router_logits of
           Inl e \<Rightarrow> Inl e
         | Inr routing \<Rightarrow>
             Inr (hidden_states\<lparr>tokens :=
                    map2 (moe_weighted_sum act_fn (experts params) (hidden hidden_states))
                      (tokens hidden_states) routing\<rparr>,
                  router_logits))"

subsection \<open>Arrays with a shape, and the attention cache\<close>

text \<open>
  The key/value arrays and the masks are kept as a shape and a function from an index (one
  coordinate per axis) to the element there. Only the elements at indices within the
  shape are meant.
\<close>

record 'a tensor =
  shape :: "nat list"
  elem :: "nat list \<Rightarrow> 'a"

definition in_bounds :: "nat list \<Rightarrow> nat list \<Rightarrow> bool" where
  "in_bounds shp idx = list_all2 (<) idx shp"

definition jnp_zeros :: "nat list \<Rightarrow> real tensor" where
  "jnp_zeros shp = \<lparr>shape = shp, elem = (\<lambda>idx. 0)\<rparr>"

text \<open>
  \<^verbatim>\<open>jax.lax.dynamic_update_slice(operand, update, start_indices)\<close>: the update must have
  the rank of the operand and fit into it along every axis; a negative start counts from
  the end, and every start is clamped to \<open>0 .. operand_dim - update_dim\<close>, so that the
  update always lands inside the operand, which keeps its shape.
\<close>

definition clamp_start :: "int \<Rightarrow> nat \<Rightarrow> nat \<Rightarrow> nat" where
  "clamp_start start operand_dim update_dim =
     nat (max 0 (min (if start < 0 then start + int operand_dim else start)
                     (int operand_dim - int update_dim)))"

definition dynamic_update_slice :: "'a tensor \<Rightarrow> 'a tensor \<Rightarrow> int list \<Rightarrow> error + 'a tensor" where
  "dynamic_update_slice operand update start_indices =
     (if length (shape update) \<noteq> length (shape operand)
         \<or> length start_indices \<noteq> length (shape operand)
         \<or> \<not> list_all2 (\<le>) (shape update) (shape operand)
      then Inl TypeError
      else
        (let starts = map2 (\<lambda>s du. clamp_start s (fst du) (snd du)) start_indices
                        (zip (shape operand) (shape update))
         in Inr \<lparr>shape = shape operand,
                 elem = (\<lambda>idx.
                   if list_all2 (\<lambda>i su. fst su \<le> i \<and> i < fst su + snd su) idx
                        (zip starts (shape update))
                   then elem update (map2 (-) idx starts)
                   else elem operand idx)\<rparr>))"

text \<open>
  \<^verbatim>\<open>flax.linen.combine_masks\<close> of two masks: it asserts that they have the same rank and
  takes their broadcast \<^verbatim>\<open>logical_and\<close>. A mask element is kept as a truth value (the
  library returns it as 1.0 or 0.0).
\<close>

definition broadcast_elem :: "'a tensor \<Rightarrow> nat list \<Rightarrow> 'a" where
  "broadcast_elem t idx = elem t (map2 (\<lambda>d i. if d = 1 then 0 else i) (shape t) idx)"

definition combine_masks :: "bool tensor \<Rightarrow> bool tensor \<Rightarrow> error + bool tensor" where
  "combine_masks m1 m2 =
     (if length (shape m1) \<noteq> length (shape m2) then Inl AssertionError
      else if \<not> list_all2 (\<lambda>a b. a = b \<or> a = 1 \<or> b = 1) (shape m1) (shape m2)
      then Inl ValueError
      else Inr \<lparr>shape = map2 (\<lambda>a b. if a = 1 then b else a) (shape m1) (shape m2),
                elem = (\<lambda>idx. broadcast_elem m1 idx \<and> broadcast_elem m2 idx)\<rparr>)"

text \<open>
  The variables \<^verbatim>\<open>key\<close>, \<^verbatim>\<open>value\<close> and \<^verbatim>\<open>index\<close> of the collection \<^verbatim>\<open>cache\<close> of one
  attention module; the index is a 32-bit signed integer.
\<close>

record attention_cache =
  cache_key :: "real tensor"
  cache_value :: "real tensor"
  cache_index :: "32 word"

definition init_cache_variables :: "nat list \<Rightarrow> attention_cache" where
  "init_cache_variables key_shape =
     \<lparr>cache_key = jnp_zeros key_shape, cache_value = jnp_zeros key_shape, cache_index = 0\<rparr>"

text \<open>
  \<^verbatim>\<open>FlaxMixtralAttention.concatenate_to_cache_\<close> (lines 372 to 392). The first argument
  is the cache of the module, \<open>None\<close> when it has no variable \<^verbatim>\<open>key\<close> yet; the result is
  the cache after the call together with the four values the method returns.
\<close>

definition concatenate_to_cache ::
  "attention_cache option \<Rightarrow> real tensor \<Rightarrow> real tensor \<Rightarrow> real tensor \<Rightarrow> bool tensor \<Rightarrow>
     error + (attention_cache \<times> real tensor \<times> real tensor \<times> real tensor \<times> bool tensor)" where
  "concatenate_to_cache cache query key value attention_mask =
     (case cache of
        None \<Rightarrow> Inr (init_cache_variables (shape key), query, key, value, attention_mask)
      | Some c \<Rightarrow>
          (let kshape = shape (cache_key c)
           in if length kshape < 3 then Inl ValueError
              else
                (let bd = take (length kshape - 3) kshape;
                     ml = kshape ! (length kshape - 3);
                     indices = replicate (length bd) 0 @ [sint (cache_index c), 0, 0]
                 in case dynamic_update_slice (cache_key c) key indices of
                      Inl e \<Rightarrow> Inl e
                    | Inr key' \<Rightarrow>
                        (case dynamic_update_slice (cache_value c) value indices of
                           Inl e \<Rightarrow> Inl e
                         | Inr value' \<Rightarrow>
                             if length (shape query) < 2 then Inl IndexError
                             else
                               (let num_updated_cache_vector = shape query ! 1;
                                    index' = cache_index c + word_of_nat num_updated_cache_vector;
                                    pad_mask =
                                      \<lparr>shape = bd @ [1, num_updated_cache_vector, ml],
                                       elem = (\<lambda>idx. int (idx ! (length bd + 2)) < sint index')\<rparr>
                                in case combine_masks pad_mask attention_mask of
                                     Inl e \<Rightarrow> Inl e
                                   | Inr attention_mask' \<Rightarrow>
                                       Inr (\<lparr>cache_key = key', cache_value = value',
                                             cache_index = index'\<rparr>,
                                            query, key', value', attention_mask'))))))"

text \<open>
  The mask of line 387 for a cache with one batch axis, and a mask that marks every
  position valid (the default attention mask, \<^verbatim>\<open>jnp.ones\<close>).
\<close>

definition pad_mask_of :: "nat \<Rightarrow> nat \<Rightarrow> nat \<Rightarrow> 32 word \<Rightarrow> bool tensor" where
  "pad_mask_of b n ml index' =
     \<lparr>shape = [b, 1, n, ml], elem = (\<lambda>idx. int (idx ! 3) < sint index')\<rparr>"

definition all_valid :: "nat list \<Rightarrow> bool tensor" where
  "all_valid shp = \<lparr>shape = shp, elem = (\<lambda>idx. True)\<rparr>"

text \<open>
  The attention mask that reaches the attention modules has two axes:
  \<^verbatim>\<open>MixtralPreTrainedModel.__call__\<close> fills in \<^verbatim>\<open>jnp.ones((batch_size, sequence_length))\<close>
  when the caller gives none (line 1039), \<^verbatim>\<open>prepare_inputs_for_generation\<close> builds
  \<^verbatim>\<open>jnp.ones((batch_size, max_length))\<close> (line 1280), and \<^verbatim>\<open>FlaxMixtralModule\<close>, the
  layer collection and the decoder layer hand the mask on as it is (lines 1145, 855 and
  772).
\<close>

definition default_attention_mask :: "nat \<Rightarrow> nat \<Rightarrow> bool tensor" where
  "default_attention_mask batch_size sequence_length = all_valid [batch_size, sequence_length]"

definition extended_attention_mask :: "nat \<Rightarrow> nat \<Rightarrow> bool tensor" where
  "extended_attention_mask batch_size max_length = all_valid [batch_size, max_length]"

text \<open>
  Lines 454 and 455 of \<^verbatim>\<open>FlaxMixtralAttention.__call__\<close>: when the module has a cache, or
  is asked to create one, the query, key and value that \<^verbatim>\<open>t_rotary\<close> returned go to
  \<^verbatim>\<open>concatenate_to_cache_\<close> together with the attention mask as the caller passed it.
  The mask is given four axes only afterwards, on lines 470 and 471.
\<close>

definition attention_cache_step ::
  "attention_cache option \<Rightarrow> bool \<Rightarrow> real tensor \<Rightarrow> real tensor \<Rightarrow> real tensor \<Rightarrow> bool tensor \<Rightarrow>
     error + (attention_cache option \<times> real tensor \<times> real tensor \<times> real tensor \<times> bool tensor)" where
  "attention_cache_step cache init_cache' query key value attention_mask =
     (if cache \<noteq> None \<or> init_cache'
      then
        (case concatenate_to_cache cache query key value attention_mask of
           Inl e \<Rightarrow> Inl e
         | Inr (cache', query', key', value', attention_mask') \<Rightarrow>
             Inr (Some cache', query', key', value', attention_mask'))
      else Inr (None, query, key, value, attention_mask))"

subsection \<open>Configuration, attention set-up and cache allocation\<close>

text \<open>
  \<^verbatim>\<open>MixtralConfig.__init__\<close> (lines 36 to 158), for the hyperparameters that determine
  shapes. It stores its arguments; the only computation is the default of
  \<^verbatim>\<open>num_key_value_heads\<close>. It raises nothing.
\<close>

record MixtralConfig =
  vocab_size :: int
  hidden_size :: int
  intermediate_size :: int
  num_hidden_layers :: int
  num_attention_heads :: int
  num_key_value_heads :: int
  max_position_embeddings :: int
  num_experts_per_tok :: int
  num_local_experts :: int
  output_router_logits :: bool

definition MixtralConfig_init ::
  "int \<Rightarrow> int \<Rightarrow> int \<Rightarrow> int \<Rightarrow> int \<Rightarrow> int option \<Rightarrow> int \<Rightarrow> int \<Rightarrow> int \<Rightarrow> bool \<Rightarrow> MixtralConfig" where
  "MixtralConfig_init vocab_size' hidden_size' intermediate_size' num_hidden_layers'
       num_attention_heads' num_key_value_heads' max_position_embeddings'
       num_experts_per_tok' num_local_experts' output_router_logits' =
     \<lparr>vocab_size = vocab_size',
      hidden_size = hidden_size',
      intermediate_size = intermediate_size',
      num_hidden_layers = num_hidden_layers',
      num_attention_heads = num_attention_heads',
      num_key_value_heads =
        (case num_key_value_heads' of None \<Rightarrow> num_attention_heads' | Some n \<Rightarrow> n),
      max_position_embeddings = max_position_embeddings',
      num_experts_per_tok = num_experts_per_tok',
      num_local_experts = num_local_experts',
      output_router_logits = output_router_logits'\<rparr>"

text \<open>Python's \<^verbatim>\<open>//\<close> rounds towards minus infinity, as \<open>div\<close> does, and raises on 0.\<close>

definition py_floordiv :: "int \<Rightarrow> int \<Rightarrow> error + int" where
  "py_floordiv a b = (if b = 0 then Inl ZeroDivisionError else Inr (a div b))"

text \<open>\<^verbatim>\<open>FlaxMixtralAttention.setup\<close> (lines 347 to 354): the derived dimensions.\<close>

record attention_dims =
  a_hidden_size :: int
  a_num_heads :: int
  a_head_dim :: int
  a_num_key_value_heads :: int
  a_num_key_value_groups :: int
  a_max_position_embeddings :: int

definition FlaxMixtralAttention_setup :: "MixtralConfig \<Rightarrow> error + attention_dims" where
  "FlaxMixtralAttention_setup config =
     (case py_floordiv (hidden_size config) (num_attention_heads config) of
        Inl e \<Rightarrow> Inl e
      | Inr head_dim \<Rightarrow>
          (case py_floordiv (num_attention_heads config) (num_key_value_heads config) of
             Inl e \<Rightarrow> Inl e
           | Inr groups \<Rightarrow>
               Inr \<lparr>a_hidden_size = hidden_size config,
                    a_num_heads = num_attention_heads config,
                    a_head_dim = head_dim,
                    a_num_key_value_heads = num_key_value_heads config,
                    a_num_key_value_groups = groups,
                    a_max_position_embeddings = max_position_embeddings config\<rparr>))"

text \<open>The transposition \<^verbatim>\<open>(0, 2, 1, 3)\<close> of \<^verbatim>\<open>_t\<close> (line 396), on a shape.\<close>

fun transpose_shape :: "nat list \<Rightarrow> nat list" where
  "transpose_shape [a, b, c, d] = [a, c, b, d]"
| "transpose_shape shp = shp"

text \<open>
  Modelled from the spec: \<^verbatim>\<open>repeat_kv_bnsh\<close> of \<^verbatim>\<open>flax_modelling_utils\<close>, which is not
  among the sources. "K/V heads are repeated to match Q head count before scoring": on an
  array of shape (batch, heads, sequence, head\_dim) every head is repeated \<open>n_rep\<close>
  times, which multiplies the head axis by \<open>n_rep\<close>.
\<close>

fun repeat_kv_bnsh_shape :: "nat list \<Rightarrow> nat \<Rightarrow> nat list" where
  "repeat_kv_bnsh_shape [bs, n_kv_heads, s, dh] n_rep = [bs, n_kv_heads * n_rep, s, dh]"
| "repeat_kv_bnsh_shape shp n_rep = shp"

text \<open>
  Modelled from the spec: the rotary encoding (\<^verbatim>\<open>precompute_freq_cis\<close> and
  \<^verbatim>\<open>apply_rotary_pos_emb\<close> of \<^verbatim>\<open>flax_modelling_utils\<close>, not among the sources) is
  "applied as a rotation in pairs of feature channels"; it keeps the shape of the query
  and of the key, and an odd number of channels cannot be paired.
\<close>

definition rotary_shape :: "nat list \<Rightarrow> error + nat list" where
  "rotary_shape shp = (if shp \<noteq> [] \<and> odd (last shp) then Inl TypeError else Inr shp)"

text \<open>
  The shape of the key that \<^verbatim>\<open>t_rotary\<close> (lines 398 to 407) returns: the projected key is
  reshaped to (batch, sequence, key/value heads, head\_dim), transposed, rotated,
  repeated \<^verbatim>\<open>num_key_value_groups\<close> times and transposed back. The projections of line 439
  and the reshapes of lines 399 to 401 need non-negative dimensions: a negative one is
  rejected by the array library.
\<close>

definition t_rotary_key_shape :: "attention_dims \<Rightarrow> nat \<Rightarrow> nat \<Rightarrow> error + nat list" where
  "t_rotary_key_shape dims batch_size sequence_length =
     (if a_num_heads dims < 0 \<or> a_num_key_value_heads dims < 0 \<or> a_head_dim dims < 0
         \<or> a_num_key_value_groups dims < 0
      then Inl ValueError
      else
        (let key_shape = [batch_size, sequence_length, nat (a_num_key_value_heads dims),
                          nat (a_head_dim dims)];
             key_shape = transpose_shape key_shape
         in case rotary_shape key_shape of
              Inl e \<Rightarrow> Inl e
            | Inr key_shape \<Rightarrow>
                (let key_shape = repeat_kv_bnsh_shape key_shape
                                   (nat (a_num_key_value_groups dims))
                 in Inr (transpose_shape key_shape))))"

subsection \<open>The pass that creates the parameters and the cache\<close>

text \<open>
  A Flax module is lazy: its \<^verbatim>\<open>setup\<close> and the allocation of its parameters run when
  the module is applied. This file applies the model to a dummy input in two places.
  \<^verbatim>\<open>MixtralPreTrainedModel.__init__\<close> (lines 890 to 913) builds the module object and
  calls \<^verbatim>\<open>FlaxPreTrainedModel.__init__\<close> of the transformers library, which traces
  \<^verbatim>\<open>init_weights\<close> (lines 915 to 971) at \<^verbatim>\<open>input_shape\<close> to learn the shapes of the
  parameters; and \<^verbatim>\<open>init_cache\<close> (lines 973 to 982) runs the module on an input of shape
  (batch\_size, max\_length) with \<^verbatim>\<open>init_cache=True\<close>. What follows is that pass on the
  level of shapes, in the order of the source, with the checks that the source and the
  array library make on the way. The configuration fields \<^verbatim>\<open>use_flash_attention\<close> and
  \<^verbatim>\<open>use_shard_map\<close> have their default \<^verbatim>\<open>False\<close>, so that attention takes the branch of
  lines 543 to 551; \<^verbatim>\<open>c_max_position_embeddings\<close> (line 149, default 4096), which the
  record \<open>MixtralConfig\<close> above does not have, is a parameter. A dimension of size zero is
  not followed further: what a statement below concludes about a result, it concludes
  for positive sizes.

  \<^verbatim>\<open>FlaxMixtralModule.setup\<close> (lines 1088 to 1114) runs when line 1133 reads
  \<^verbatim>\<open>self.embed_tokens\<close>. It divides by the number of heads for the rotary table (line
  1112) and builds the causal mask of side \<^verbatim>\<open>c_max_position_embeddings\<close> (line 1114);
  the result is that side.
\<close>

definition FlaxMixtralModule_setup :: "MixtralConfig \<Rightarrow> int \<Rightarrow> error + nat" where
  "FlaxMixtralModule_setup config c_max_position_embeddings =
     (case py_floordiv (hidden_size config) (num_attention_heads config) of
        Inl e \<Rightarrow> Inl e
      | Inr head_dim \<Rightarrow>
          if c_max_position_embeddings < 0 then Inl ValueError
          else Inr (nat c_max_position_embeddings))"

text \<open>
  \<^verbatim>\<open>nn.Embed(vocab_size, hidden_size)\<close> on the token ids (line 1133): it allocates a table
  of shape (vocab\_size, hidden\_size), which must not have a negative dimension, and
  returns an array of shape (batch, sequence, hidden\_size).
\<close>

definition nn_Embed_shape :: "int \<Rightarrow> int \<Rightarrow> nat list \<Rightarrow> error + nat list" where
  "nn_Embed_shape num_embeddings features input_shape =
     (if num_embeddings < 0 \<or> features < 0 then Inl ValueError
      else Inr (input_shape @ [nat features]))"

text \<open>
  \<^verbatim>\<open>FlaxMixtralAttention.__call__\<close> (lines 438 to 559) on a hidden state of shape
  (batch\_size, sequence\_length, hidden\_size), for a module that has no cache yet. The
  steps, in order: \<^verbatim>\<open>setup\<close>; the projections and \<^verbatim>\<open>t_rotary\<close>; with \<^verbatim>\<open>init_cache\<close> the
  creation of the cache from the shape of the key (line 455); the causal mask, cut by
  \<^verbatim>\<open>dynamic_slice\<close> to (1, 1, sequence\_length, cache length) when the module now has a
  cache (lines 458 to 463), which rejects a slice larger than the mask, and by plain
  slicing otherwise (line 465), after which the attention mask of a longer sequence
  cannot be broadcast to it (line 471);
  \<^verbatim>\<open>dot_product_attention_weights\<close> (line 543), which asserts that query and key have
  the same number of heads; and the reshape of the attention output, of shape (batch,
  sequence, heads, head\_dim), to (batch, sequence, hidden\_size) on line 558, which needs
  the same number of elements. The result is the cache of the module after the call.
\<close>

definition FlaxMixtralAttention_call_shapes ::
  "MixtralConfig \<Rightarrow> nat \<Rightarrow> bool \<Rightarrow> nat \<Rightarrow> nat \<Rightarrow> error + attention_cache option" where
  "FlaxMixtralAttention_call_shapes config causal_mask_side init_cache' batch_size sequence_length =
     (case FlaxMixtralAttention_setup config of
        Inl e \<Rightarrow> Inl e
      | Inr dims \<Rightarrow>
          (case t_rotary_key_shape dims batch_size sequence_length of
             Inl e \<Rightarrow> Inl e
           | Inr key_shape \<Rightarrow>
               (let cache = (if init_cache' then Some (init_cache_variables key_shape) else None)
                in if cache \<noteq> None \<and> causal_mask_side < sequence_length then Inl TypeError
                   else if cache = None \<and> causal_mask_side < sequence_length then Inl ValueError
                   else if a_num_heads dims
                             \<noteq> a_num_key_value_heads dims * a_num_key_value_groups dims
                   then Inl AssertionError
                   else if int batch_size * int sequence_length
                             * (a_num_heads dims * a_head_dim dims)
                           \<noteq> int batch_size * int sequence_length * a_hidden_size dims
                   then Inl TypeError
                   else Inr cache)))"

text \<open>
  \<^verbatim>\<open>FlaxMixtralSparseMoeBlock.__call__\<close> (lines 684 to 700) and the experts it calls, on
  the level of shapes: the gate is a \<^verbatim>\<open>Dense\<close> layer with \<^verbatim>\<open>num_local_experts\<close> features,
  \<^verbatim>\<open>top_k\<close> (line 689) rejects a \<open>k\<close> that is negative or larger than the number of
  experts, and each expert that is given a token allocates \<^verbatim>\<open>Dense\<close> layers with
  \<^verbatim>\<open>intermediate_size\<close> features (line 639). The result has the shape of the input.
\<close>

definition FlaxMixtralSparseMoeBlock_call_shapes ::
  "MixtralConfig \<Rightarrow> nat \<Rightarrow> nat \<Rightarrow> error + nat list" where
  "FlaxMixtralSparseMoeBlock_call_shapes config batch_size sequence_length =
     (if num_local_experts config < 0 then Inl ValueError
      else if num_experts_per_tok config < 0
              \<or> num_local_experts config < num_experts_per_tok config
      then Inl ValueError
      else if 0 < num_local_experts config \<and> 0 < batch_size * sequence_length
              \<and> intermediate_size config < 0
      then Inl ValueError
      else Inr [batch_size, sequence_length, nat (hidden_size config)])"

text \<open>
  \<^verbatim>\<open>FlaxMixtralDecoderLayer.__call__\<close> (lines 767 to 792): attention, then the sparse
  block; the norms and the residual sums keep the shape.
\<close>

definition FlaxMixtralDecoderLayer_call_shapes ::
  "MixtralConfig \<Rightarrow> nat \<Rightarrow> bool \<Rightarrow> nat \<Rightarrow> nat \<Rightarrow> error + attention_cache option" where
  "FlaxMixtralDecoderLayer_call_shapes config causal_mask_side init_cache' batch_size
       sequence_length =
     (case FlaxMixtralAttention_call_shapes config causal_mask_side init_cache' batch_size
             sequence_length of
        Inl e \<Rightarrow> Inl e
      | Inr cache \<Rightarrow>
          (case FlaxMixtralSparseMoeBlock_call_shapes config batch_size sequence_length of
             Inl e \<Rightarrow> Inl e
           | Inr hidden_shape \<Rightarrow> Inr cache))"

text \<open>
  \<^verbatim>\<open>FlaxMixtralModule.__call__\<close> (lines 1129 to 1180) with token ids of shape
  (batch\_size, sequence\_length): \<^verbatim>\<open>setup\<close>, the embedding, and the
  \<^verbatim>\<open>num_hidden_layers\<close> decoder layers of \<^verbatim>\<open>FlaxMixtralDecoderLayerCollection\<close> (lines 812
  and 850), each on a hidden state of the same shape. The result is the collection
  \<^verbatim>\<open>cache\<close>: the caches of the layers that have one.
\<close>

fun cache_collection :: "attention_cache option list \<Rightarrow> attention_cache list" where
  "cache_collection [] = []"
| "cache_collection (None # cs) = cache_collection cs"
| "cache_collection (Some c # cs) = c # cache_collection cs"

definition FlaxMixtralModule_call_shapes ::
  "MixtralConfig \<Rightarrow> int \<Rightarrow> bool \<Rightarrow> nat \<Rightarrow> nat \<Rightarrow> error + attention_cache list" where
  "FlaxMixtralModule_call_shapes config c_max_position_embeddings init_cache' batch_size
       sequence_length =
     (case FlaxMixtralModule_setup config c_max_position_embeddings of
        Inl e \<Rightarrow> Inl e
      | Inr causal_mask_side \<Rightarrow>
          (case nn_Embed_shape (vocab_size config) (hidden_size config)
                  [batch_size, sequence_length] of
             Inl e \<Rightarrow> Inl e
           | Inr inputs_embeds \<Rightarrow>
               (case collect (map (\<lambda>layer_index.
                              FlaxMixtralDecoderLayer_call_shapes config causal_mask_side
                                init_cache' batch_size sequence_length)
                        [0..<nat (num_hidden_layers config)]) of
                  Inl e \<Rightarrow> Inl e
                | Inr caches \<Rightarrow> Inr (cache_collection caches))))"




text \<open>
  \<^verbatim>\<open>MixtralPreTrainedModel.init_cache\<close> (lines 973 to 982) runs the module on an input of
  shape (batch\_size, max\_length) with \<^verbatim>\<open>init_cache=True\<close> and returns the collection
  \<^verbatim>\<open>cache\<close> of the variables this creates. Without a layer no such collection is
  created, and reading it on line 982 raises \<^verbatim>\<open>KeyError\<close>.
\<close>

definition init_cache :: "MixtralConfig \<Rightarrow> int \<Rightarrow> nat \<Rightarrow> nat \<Rightarrow> error + attention_cache list" where
  "init_cache config c_max_position_embeddings batch_size max_length =
     (case FlaxMixtralModule_call_shapes config c_max_position_embeddings True batch_size
             max_length of
        Inl e \<Rightarrow> Inl e
      | Inr cache \<Rightarrow> if cache = [] then Inl KeyError else Inr cache)"

subsection \<open>The causal language-model head\<close>

text \<open>
  The attributes of a \<^verbatim>\<open>FlaxMixtralForCausalLMModule\<close>: its four dataclass fields (line
  1188 to 1191) and the two attributes that \<^verbatim>\<open>setup\<close> assigns (lines 1194 and 1200).
  Reading an attribute that a module does not have raises \<^verbatim>\<open>AttributeError\<close>.
\<close>

datatype attribute =
    ConfigAttr MixtralConfig
  | DtypeAttr
  | PrecisionAttr
  | ModuleAttr
  | IntAttr int

definition FlaxMixtralForCausalLMModule_attributes :: "MixtralConfig \<Rightarrow> (string \<times> attribute) list" where
  "FlaxMixtralForCausalLMModule_attributes config =
     [(''config'', ConfigAttr config), (''dtype'', DtypeAttr), (''param_dtype'', DtypeAttr),
      (''precision'', PrecisionAttr), (''model'', ModuleAttr), (''lm_head'', ModuleAttr)]"

definition getattr_int :: "(string \<times> attribute) list \<Rightarrow> string \<Rightarrow> error + int" where
  "getattr_int attrs name =
     (case map_of attrs name of
        None \<Rightarrow> Inl AttributeError
      | Some (IntAttr i) \<Rightarrow> Inr i
      | Some _ \<Rightarrow> Inl TypeError)"

record MoeModelOutput =
  last_hidden_state :: hidden_array
  router_logits :: "real list list list option"

record MoeCausalLMOutput =
  aux_loss :: "real option"
  logits :: hidden_array
  lm_router_logits :: "real list list list option"

datatype causal_lm_result =
    AsTuple hidden_array "real list list list option"
  | AsOutput MoeCausalLMOutput

text \<open>
  \<^verbatim>\<open>FlaxMixtralForCausalLMModule.__call__\<close> (lines 1223 to 1260). The inner
  \<^verbatim>\<open>FlaxMixtralModule\<close> is a parameter: \<open>model\<close> maps the flag \<^verbatim>\<open>output_router_logits\<close>
  to what \<^verbatim>\<open>self.model(...)\<close> returns; \<open>lm_head\<close> is the kernel of the output projection.
\<close>

definition FlaxMixtralForCausalLMModule_call ::
  "MixtralConfig \<Rightarrow> (bool option \<Rightarrow> error + MoeModelOutput) \<Rightarrow> real list list \<Rightarrow>
     bool option \<Rightarrow> bool \<Rightarrow> error + causal_lm_result" where
  "FlaxMixtralForCausalLMModule_call config model lm_head output_router_logits' return_dict =
     (case model output_router_logits' of
        Inl e \<Rightarrow> Inl e
      | Inr outputs \<Rightarrow>
          (let self = FlaxMixtralForCausalLMModule_attributes config;
               logits' = (last_hidden_state outputs)
                           \<lparr>hidden := length lm_head,
                            tokens := map (dense lm_head) (tokens (last_hidden_state outputs))\<rparr>;
               aux_loss' =
                 (case router_logits outputs of
                    None \<Rightarrow> Inr None
                  | Some gate_logits \<Rightarrow>
                      if output_router_logits' = Some True
                      then
                        (case getattr_int self ''num_experts'' of
                           Inl e \<Rightarrow> Inl e
                         | Inr num_experts \<Rightarrow>
                             (case getattr_int self ''num_experts_per_tok'' of
                                Inl e \<Rightarrow> Inl e
                              | Inr k \<Rightarrow>
                                  (case jax_load_balancing_loss_func (LogitsTuple gate_logits)
                                          (nat num_experts) (nat k) of
                                     Inl e \<Rightarrow> Inl e
                                   | Inr loss \<Rightarrow> Inr (Some loss))))
                      else Inr None)
           in case aux_loss' of
                Inl e \<Rightarrow> Inl e
              | Inr aux \<Rightarrow>
                  if \<not> return_dict then Inr (AsTuple logits' (router_logits outputs))
                  else Inr (AsOutput \<lparr>aux_loss = aux, logits = logits',
                                      lm_router_logits = router_logits outputs\<rparr>)))"

subsection \<open>Names used in the proofs about the loss\<close>

text \<open>
  The indices that \<open>top_k\<close> selects on a row, and the row of products that line 297
  averages for one token.
\<close>

definition sel_of :: "nat \<Rightarrow> real list \<Rightarrow> nat list" where
  "sel_of k row = take k (argsort_desc row)"

definition token_products :: "nat \<Rightarrow> nat \<Rightarrow> real list \<Rightarrow> real list" where
  "token_products n k row =
     map (\<lambda>x. x * mean (softmax (map (\<lambda>i. row ! i) (sel_of k row))))
       (mean_rows n (map (\<lambda>s. one_hot s n) (sel_of k row)))"

section \<open>Properties of the routing weights\<close>

subsection \<open>Sorting depends only on the order of the keys\<close>

lemma insort_key_cong_ord:
  "(\<And>y. y \<in> set ys \<Longrightarrow> (f x \<le> f y) = (g x \<le> g y)) \<Longrightarrow>
     insort_key f x ys = insort_key g x ys"
  by (induction ys) auto

lemma sort_key_cong_ord:
  "(\<And>x y. x \<in> set xs \<Longrightarrow> y \<in> set xs \<Longrightarrow> (f x \<le> f y) = (g x \<le> g y)) \<Longrightarrow>
     sort_key f xs = sort_key g xs"
proof (induction xs)
  case Nil
  then show ?case by simp
next
  case (Cons a xs)
  have "sort_key f xs = sort_key g xs"
    using Cons by auto
  moreover have "insort_key f a (sort_key g xs) = insort_key g a (sort_key g xs)"
    by (rule insort_key_cong_ord) (use Cons.prems in auto)
  ultimately show ?case by simp
qed

lemma set_argsort_desc: "set (argsort_desc xs) = {..<length xs}"
  by (auto simp: argsort_desc_def)

lemma distinct_argsort_desc: "distinct (argsort_desc xs)"
  by (simp add: argsort_desc_def)

lemma length_argsort_desc: "length (argsort_desc xs) = length xs"
  by (simp add: argsort_desc_def)

lemma length_softmax: "length (softmax xs) = length xs"
  by (simp add: softmax_def)

lemma sum_exp_pos: "xs \<noteq> [] \<Longrightarrow> 0 < sum_list (map exp xs)" for xs :: "real list"
proof (induction xs)
  case Nil
  then show ?case by simp
next
  case (Cons a xs)
  have "0 \<le> sum_list (map exp xs)"
    by (rule sum_list_nonneg) auto
  then show ?case
    by (simp add: add_pos_nonneg)
qed

lemma softmax_nth:
  "i < length xs \<Longrightarrow> softmax xs ! i = exp (xs ! i) / sum_list (map exp xs)"
  by (simp add: softmax_def)

lemma argsort_desc_softmax: "argsort_desc (softmax xs) = argsort_desc xs"
proof -
  have "sort_key (\<lambda>i. - (softmax xs ! i)) [0..<length xs]
      = sort_key (\<lambda>i. - (xs ! i)) [0..<length xs]"
  proof (rule sort_key_cong_ord)
    fix i j
    assume "i \<in> set [0..<length xs]" and "j \<in> set [0..<length xs]"
    then have i: "i < length xs" and j: "j < length xs"
      by auto
    then have "xs \<noteq> []"
      by auto
    then have Z: "0 < sum_list (map exp xs)"
      by (rule sum_exp_pos)
    show "(- (softmax xs ! i) \<le> - (softmax xs ! j)) = (- (xs ! i) \<le> - (xs ! j))"
      using Z by (simp add: softmax_nth i j divide_le_cancel)
  qed
  then show ?thesis
    by (simp add: argsort_desc_def length_softmax)
qed

lemma sum_list_map_divide:
  "sum_list (map (\<lambda>i. f i / c) xs) = sum_list (map f xs) / (c::real)"
  by (induction xs) (auto simp: add_divide_distrib)

lemma top_k_softmax:
  assumes "k \<le> length xs"
  shows "top_k (softmax xs) k =
     Inr (map (\<lambda>i. exp (xs ! i) / sum_list (map exp xs)) (take k (argsort_desc xs)),
          take k (argsort_desc xs))"
proof -
  have "\<And>i. i \<in> set (take k (argsort_desc xs)) \<Longrightarrow> i < length xs"
    using set_argsort_desc[of xs] by (auto dest: in_set_takeD)
  then show ?thesis
    using assms
    by (simp add: top_k_def length_softmax argsort_desc_softmax softmax_nth Let_def)
qed

lemma renormalize_scaled:
  assumes "0 < (Z::real)"
  shows "renormalize (map (\<lambda>i. exp (f i) / Z) is) = softmax (map f is)"
proof -
  have "sum_list (map (\<lambda>i. exp (f i) / Z) is) = sum_list (map (\<lambda>i. exp (f i)) is) / Z"
    by (rule sum_list_map_divide)
  then show ?thesis
    using assms by (simp add: renormalize_def softmax_def comp_def)
qed

lemma routing_row_agree: "loss_routing_row k row = moe_routing_row k row"
proof (cases "k \<le> length row")
  case False
  then show ?thesis
    by (simp add: loss_routing_row_def moe_routing_row_def top_k_def length_softmax)
next
  case True
  show ?thesis
  proof (cases "row = []")
    case True
    with \<open>k \<le> length row\<close> show ?thesis
      by (simp add: loss_routing_row_def moe_routing_row_def top_k_def softmax_def
          renormalize_def argsort_desc_def)
  next
    case False
    then have Z: "0 < sum_list (map exp row)"
      by (rule sum_exp_pos)
    show ?thesis
      using True renormalize_scaled[OF Z, of "\<lambda>i. row ! i"]
      by (simp add: loss_routing_row_def moe_routing_row_def top_k_softmax)
         (simp add: top_k_def Let_def)
  qed
qed

lemma routing_agree: "loss_routing k gate_logits = moe_routing k gate_logits"
proof -
  have "loss_routing_row k = moe_routing_row k"
    by (rule ext) (rule routing_row_agree)
  then show ?thesis
    by (simp add: loss_routing_def moe_routing_def)
qed

subsection \<open>The block's selection against the loss function's\<close>




lemma length_softmax_f32: "length (softmax_f32 xs) = length xs"
  by (simp add: softmax_f32_def Let_def)




lemma softmax_f32_zeros3: "softmax_f32 [0, 0, 0] = [1 / 3, 1 / 3, 1 / 3]"
  by (simp add: softmax_f32_def exp_f32_def Let_def)

lemma floor_log2_third: "\<lfloor>log 2 (1 / 3 :: real)\<rfloor> = - 2"
proof -
  have a: "2 powr (- 2) \<le> (1 / 3 :: real)"
    by (simp add: powr_minus powr_numeral)
  have b: "(1 / 3 :: real) < 2 powr (- 1)"
    by (simp add: powr_minus)
  have "(- 2 :: real) \<le> log 2 (1 / 3)"
    using a by (subst le_log_iff) simp_all
  moreover have "log 2 (1 / 3 :: real) < - 1"
    using b by (subst log_less_iff) simp_all
  ultimately show ?thesis
    by (intro floor_unique) simp_all
qed

lemma round_half_even_512_3: "round_half_even (512 / 3) = 171"
proof -
  have "\<lfloor>512 / 3 :: real\<rfloor> = 170"
    by (intro floor_unique) simp_all
  then show ?thesis
    by (simp add: round_half_even_def Let_def)
qed

lemma astype_bfloat16_third: "astype_bfloat16 (1 / 3) = 171 / 512"
proof -
  have q: "(2::real) powr (- 9) = 1 / 512"
    by (simp add: powr_minus powr_numeral)
  show ?thesis
    by (simp add: astype_bfloat16_def floor_log2_third Let_def q round_half_even_512_3)
qed

lemma routing_zeros3:
  "moe_routing_row_with softmax_f32 astype_bfloat16 3 [0, 0, 0]
     = Inr ([171 / 512, 171 / 512, 171 / 512], [0, 1, 2])"
proof -
  have t: "top_k [1 / 3, 1 / 3, 1 / 3 :: real] 3 = Inr ([1 / 3, 1 / 3, 1 / 3], [0, 1, 2])"
    by (simp add: top_k_def argsort_desc_def upt_conv_Cons)
  have r: "renormalize [1 / 3, 1 / 3, 1 / 3 :: real] = [1 / 3, 1 / 3, 1 / 3]"
    by (simp add: renormalize_def)
  show ?thesis
    by (simp add: moe_routing_row_with_def softmax_f32_zeros3 t r astype_bfloat16_third)
qed





subsection \<open>The weights of a token\<close>

lemma sum_list_renormalize: "sum_list ws \<noteq> 0 \<Longrightarrow> sum_list (renormalize ws) = 1"
proof -
  assume nz: "sum_list ws \<noteq> 0"
  have "sum_list (map (\<lambda>w. w / sum_list ws) ws) = sum_list (map (\<lambda>w. w) ws) / sum_list ws"
    by (rule sum_list_map_divide)
  then show ?thesis
    using nz by (simp add: renormalize_def)
qed

lemma sum_list_pos_real:
  "xs \<noteq> [] \<Longrightarrow> (\<And>x. x \<in> set xs \<Longrightarrow> 0 < x) \<Longrightarrow> 0 < sum_list xs" for xs :: "real list"
proof (induction xs)
  case Nil
  then show ?case by simp
next
  case (Cons a xs)
  have "0 \<le> sum_list xs"
    by (rule sum_list_nonneg) (use Cons.prems in \<open>auto intro: less_imp_le\<close>)
  moreover have "0 < a"
    using Cons.prems by simp
  ultimately show ?case by simp
qed

lemma exp_f32_nonneg: "0 \<le> exp_f32 y"
  by (simp add: exp_f32_def)

lemma fold_max_is_Max:
  fixes xs :: "real list"
  assumes "xs \<noteq> []"
  shows "fold max (tl xs) (hd xs) = Max (set xs)"
proof (cases xs)
  case Nil
  then show ?thesis using assms by simp
next
  case (Cons a list)
  then show ?thesis using Max.set_eq_fold[of a list] by simp
qed

lemma sum_list_ge_member:
  "(\<And>x. x \<in> set xs \<Longrightarrow> 0 \<le> x) \<Longrightarrow> y \<in> set xs \<Longrightarrow> y \<le> sum_list xs" for xs :: "real list"
proof (induction xs)
  case Nil
  then show ?case by simp
next
  case (Cons a xs)
  have nn: "0 \<le> sum_list xs" by (rule sum_list_nonneg) (use Cons.prems in auto)
  show ?case
  proof (cases "y = a")
    case True
    then show ?thesis using nn by simp
  next
    case False
    then have "y \<le> sum_list xs" using Cons by auto
    moreover have "0 \<le> a" using Cons.prems by simp
    ultimately show ?thesis by simp
  qed
qed

lemma softmax_f32_props:
  assumes "xs \<noteq> []"
  shows "\<forall>v \<in> set (softmax_f32 xs). 0 \<le> v" and "\<exists>v \<in> set (softmax_f32 xs). 0 < v"
proof -
  let ?m = "fold max (tl xs) (hd xs)"
  let ?u = "map (\<lambda>x. exp_f32 (x - ?m)) xs"
  have m: "?m = Max (set xs)" by (rule fold_max_is_Max[OF assms])
  have "Max (set xs) \<in> set xs" using assms by (intro Max_in) simp_all
  then have min: "?m \<in> set xs" by (simp add: m)
  then have one: "1 \<in> set ?u"
    by (auto simp: exp_f32_def image_iff intro!: bexI[of _ ?m])
  have nn: "\<And>u. u \<in> set ?u \<Longrightarrow> 0 \<le> u" by (auto simp: exp_f32_nonneg)
  have Z: "1 \<le> sum_list ?u" by (rule sum_list_ge_member[OF nn one])
  show "\<forall>v \<in> set (softmax_f32 xs). 0 \<le> v"
    using Z by (auto simp: softmax_f32_def Let_def exp_f32_nonneg)
  have "1 / sum_list ?u \<in> set (softmax_f32 xs)"
    using one by (auto simp: softmax_f32_def Let_def image_iff)
  moreover have "0 < 1 / sum_list ?u" using Z by simp
  ultimately show "\<exists>v \<in> set (softmax_f32 xs). 0 < v" by blast
qed

lemma argsort_desc_head_is_max:
  assumes "j < length v" and "v \<noteq> []"
  shows "v ! j \<le> v ! (argsort_desc v ! 0)"
proof -
  let ?o = "argsort_desc v"
  have len: "length ?o = length v" by (rule length_argsort_desc)
  have s: "sorted (map (\<lambda>i. - (v ! i)) ?o)"
    by (simp add: argsort_desc_def)
  have "j \<in> set ?o" using assms set_argsort_desc[of v] by simp
  then obtain t where t: "t < length ?o" "?o ! t = j" by (auto simp: in_set_conv_nth)
  have "map (\<lambda>i. - (v ! i)) ?o ! 0 \<le> map (\<lambda>i. - (v ! i)) ?o ! t"
    using s t(1) by (intro sorted_nth_mono) simp_all
  then show ?thesis using t len assms by simp
qed

lemma selected_sum_pos:
  assumes "0 < k" and "k \<le> length v" and "\<forall>x \<in> set v. 0 \<le> x" and "\<exists>x \<in> set v. 0 < x"
  shows "0 < sum_list (map (\<lambda>i. v ! i) (take k (argsort_desc v)))"
proof -
  let ?o = "take k (argsort_desc v)"
  let ?vals = "map (\<lambda>i. v ! i) ?o"
  have ne: "v \<noteq> []" using assms by auto
  have lo: "length ?o = k" using assms by (simp add: length_argsort_desc)
  have sub: "\<And>i. i \<in> set ?o \<Longrightarrow> i < length v"
    using set_argsort_desc[of v] by (auto dest: in_set_takeD)
  have nn: "\<And>x. x \<in> set ?vals \<Longrightarrow> 0 \<le> x"
    using sub assms(3) by auto
  obtain j where j: "j < length v" "0 < v ! j"
    using assms(4) by (auto simp: in_set_conv_nth)
  have "v ! j \<le> v ! (argsort_desc v ! 0)" by (rule argsort_desc_head_is_max[OF j(1) ne])
  then have pos: "0 < v ! (argsort_desc v ! 0)" using j(2) by simp
  have "?vals ! 0 = v ! (argsort_desc v ! 0)" using lo assms(1) by simp
  moreover have "?vals ! 0 \<in> set ?vals" using lo assms(1) by (intro nth_mem) simp
  ultimately have "v ! (argsort_desc v ! 0) \<in> set ?vals"
    by simp
  then have "v ! (argsort_desc v ! 0) \<le> sum_list ?vals"
    by (rule sum_list_ge_member[rotated]) (rule nn)
  then show ?thesis using pos by simp
qed

lemma round_half_even_error: "\<bar>of_int (round_half_even y) - y\<bar> \<le> 1 / 2"
  unfolding round_half_even_def Let_def by (auto simp: abs_if) linarith+

lemma astype_bfloat16_error:
  assumes "0 \<le> x"
  shows "\<bar>astype_bfloat16 x - x\<bar> \<le> x / 256 + 1 / 2 ^ 134"
proof (cases "x = 0")
  case True
  then show ?thesis by (simp add: astype_bfloat16_def)
next
  case False
  then have x: "0 < x" using assms by simp
  define e where "e = max (- 126) \<lfloor>log 2 \<bar>x\<bar>\<rfloor>"
  define q :: real where "q = 2 powr (of_int e - 7)"
  have q: "0 < q" by (simp add: q_def)
  have a: "astype_bfloat16 x = of_int (round_half_even (x / q)) * q"
    using False by (simp add: astype_bfloat16_def Let_def e_def q_def)
  have "\<bar>of_int (round_half_even (x / q)) * q - x\<bar> = \<bar>of_int (round_half_even (x / q)) - x / q\<bar> * q"
    using q by (simp add: abs_mult_pos[symmetric] field_simps del: abs_mult_pos)
  also have "\<dots> \<le> (1 / 2) * q"
    using round_half_even_error[of "x / q"] q by (intro mult_right_mono) simp_all
  also have "(1 / 2) * q = 2 powr (of_int e) / 256"
    by (simp add: q_def powr_diff powr_numeral)
  finally have err: "\<bar>astype_bfloat16 x - x\<bar> \<le> 2 powr (of_int e) / 256"
    by (simp add: a)
  show ?thesis
  proof (cases "- 126 \<le> \<lfloor>log 2 \<bar>x\<bar>\<rfloor>")
    case True
    then have ee: "e = \<lfloor>log 2 x\<rfloor>" using x by (simp add: e_def)
    have "of_int e \<le> log 2 x" by (simp add: ee)
    then have "2 powr (of_int e) \<le> 2 powr (log 2 x)" by simp
    then have "2 powr (of_int e) \<le> x" using x by simp
    then have "2 powr (of_int e) / 256 \<le> x / 256" by simp
    with err show ?thesis by simp
  next
    case False
    then have ee: "e = - 126" by (simp add: e_def)
    have "(2::real) powr (of_int e) / 256 = 1 / 2 ^ 134"
      by (simp add: ee powr_minus powr_numeral)
    with err x show ?thesis by simp
  qed
qed

lemma cast_sum_error:
  assumes "\<And>w. w \<in> set ws \<Longrightarrow> 0 \<le> w"
  shows "\<bar>sum_list (map astype_bfloat16 ws) - sum_list ws\<bar>
           \<le> sum_list ws / 256 + real (length ws) / 2 ^ 134"
  using assms
proof (induction ws)
  case Nil
  then show ?case by simp
next
  case (Cons a ws)
  have a: "\<bar>astype_bfloat16 a - a\<bar> \<le> a / 256 + 1 / 2 ^ 134"
    by (rule astype_bfloat16_error) (use Cons.prems in simp)
  have r: "\<bar>sum_list (map astype_bfloat16 ws) - sum_list ws\<bar>
           \<le> sum_list ws / 256 + real (length ws) / 2 ^ 134"
    using Cons by auto
  have "\<bar>sum_list (map astype_bfloat16 (a # ws)) - sum_list (a # ws)\<bar>
      \<le> \<bar>astype_bfloat16 a - a\<bar> + \<bar>sum_list (map astype_bfloat16 ws) - sum_list ws\<bar>"
    by simp
  also have "\<dots> \<le> (a / 256 + 1 / 2 ^ 134) + (sum_list ws / 256 + real (length ws) / 2 ^ 134)"
    using a r by simp
  finally show ?case by (simp add: add_divide_distrib)
qed

lemma renormalize_nonneg:
  assumes "\<And>x. x \<in> set ws \<Longrightarrow> 0 \<le> x" and "0 < sum_list ws"
  shows "\<And>w. w \<in> set (renormalize ws) \<Longrightarrow> 0 \<le> w"
  using assms by (auto simp: renormalize_def)

lemma routing_weights_bound:
  assumes k0: "0 < k" and kl: "k \<le> length row"
    and lv: "length (sm row) = length row"
    and nn: "\<forall>x \<in> set (sm row). 0 \<le> x" and ps: "\<exists>x \<in> set (sm row). 0 < x"
  shows "\<exists>ws sel. moe_routing_row_with sm astype_bfloat16 k row = Inr (ws, sel)
           \<and> length ws = k \<and> length sel = k
           \<and> distinct sel \<and> set sel \<subseteq> {..<length row}
           \<and> \<bar>sum_list ws - 1\<bar> \<le> 1 / 256 + real k / 2 ^ 134"
proof -
  let ?v = "sm row"
  let ?order = "take k (argsort_desc ?v)"
  let ?vals = "map (\<lambda>i. ?v ! i) ?order"
  have S: "0 < sum_list ?vals"
    by (rule selected_sum_pos) (use assms in simp_all)
  have sub: "\<And>i. i \<in> set ?order \<Longrightarrow> i < length ?v"
    using set_argsort_desc[of ?v] by (auto dest: in_set_takeD)
  have vn: "\<And>x. x \<in> set ?vals \<Longrightarrow> 0 \<le> x"
    using sub nn by auto
  have wn: "\<And>w. w \<in> set (renormalize ?vals) \<Longrightarrow> 0 \<le> w"
    by (rule renormalize_nonneg[OF vn S])
  have s1: "sum_list (renormalize ?vals) = 1"
    using S by (intro sum_list_renormalize) simp
  have len: "length ?order = k" using kl by (simp add: length_argsort_desc lv)
  have lr: "length (renormalize ?vals) = k"
    using len by (simp add: renormalize_def)
  have "\<bar>sum_list (map astype_bfloat16 (renormalize ?vals)) - sum_list (renormalize ?vals)\<bar>
           \<le> sum_list (renormalize ?vals) / 256 + real (length (renormalize ?vals)) / 2 ^ 134"
    by (rule cast_sum_error[OF wn])
  then have bound: "\<bar>sum_list (map astype_bfloat16 (renormalize ?vals)) - 1\<bar>
           \<le> 1 / 256 + real k / 2 ^ 134"
    by (simp only: s1 lr)
  have call: "moe_routing_row_with sm astype_bfloat16 k row
        = Inr (map astype_bfloat16 (renormalize ?vals), ?order)"
    using kl by (simp add: moe_routing_row_with_def top_k_def lv Let_def)
  have d: "distinct ?order" by (simp add: distinct_argsort_desc)
  have sub': "set ?order \<subseteq> {..<length row}"
    using sub lv by auto
  have lw: "length (map astype_bfloat16 (renormalize ?vals)) = k"
    using lr by simp
  show ?thesis
    apply (rule exI[of _ "map astype_bfloat16 (renormalize ?vals)"])
    apply (rule exI[of _ ?order])
    apply (intro conjI)
         apply (rule call)
        apply (rule lw)
       apply (rule len)
      apply (rule d)
     apply (rule sub')
    apply (rule bound)
    done
qed

text \<open>
  Claim C4, as amended. For a token with at least one and at most as many selected experts
  as the row has logits, and for every softmax that returns a row of the same length
  with non-negative entries of which one is positive (the float32 softmax is of this
  kind), the block returns \<open>k\<close> weights and \<open>k\<close> expert indices; the indices are pairwise
  distinct and are indices of the row; and the weights, after their cast to bfloat16 on
  line 691, sum to 1 within 1/256 (and \<open>k\<close> times the rounding unit \<open>2^-134\<close> of the
  bfloat16 numbers below the normal range), where the division of line 690 is exact.
\<close>

theorem routing_weights_bfloat16_sum:
  assumes "0 < k" and "k \<le> length row"
    and "length (sm row) = length row"
    and "\<forall>x \<in> set (sm row). 0 \<le> x" and "\<exists>x \<in> set (sm row). 0 < x"
  shows "\<exists>ws sel. moe_routing_row_with sm astype_bfloat16 k row = Inr (ws, sel)
           \<and> length ws = k \<and> length sel = k
           \<and> distinct sel \<and> set sel \<subseteq> {..<length row}
           \<and> \<bar>sum_list ws - 1\<bar> \<le> 1 / 256 + real k / 2 ^ 134"
  using assms by (rule routing_weights_bound[where sm = sm and row = row and k = k])

theorem routing_weights_bfloat16_sum_witness:
  "(0::nat) < 2 \<and> (2::nat) \<le> length [0, - 200, - 150 :: real]
   \<and> length (softmax_f32 [0, - 200, - 150]) = length [0, - 200, - 150 :: real]
   \<and> (\<exists>ws sel. moe_routing_row_with softmax_f32 astype_bfloat16 2 [0, - 200, - 150]
                  = Inr (ws, sel)
         \<and> length ws = 2 \<and> length sel = 2 \<and> distinct sel
         \<and> \<bar>sum_list ws - 1\<bar> \<le> 1 / 256 + 2 / 2 ^ 134)"
proof -
  have ne: "[0, - 200, - 150 :: real] \<noteq> []"
    by simp
  have a: "(0::nat) < 2" and b: "(2::nat) \<le> length [0, - 200, - 150 :: real]"
    by simp_all
  have len: "length (softmax_f32 [0, - 200, - 150]) = length [0, - 200, - 150 :: real]"
    by (rule length_softmax_f32)
  from routing_weights_bfloat16_sum[where sm = softmax_f32 and row = "[0, - 200, - 150]"
         and k = 2, OF a b len softmax_f32_props[OF ne]]
  obtain ws sel where *:
      "moe_routing_row_with softmax_f32 astype_bfloat16 2 [0, - 200, - 150] = Inr (ws, sel)"
      "length ws = 2" "length sel = 2" "distinct sel"
      "\<bar>sum_list ws - 1\<bar> \<le> 1 / 256 + real 2 / 2 ^ 134"
    by (elim exE conjE) (rule that; assumption)
  have "\<exists>ws sel. moe_routing_row_with softmax_f32 astype_bfloat16 2 [0, - 200, - 150]
                  = Inr (ws, sel)
         \<and> length ws = 2 \<and> length sel = 2 \<and> distinct sel
         \<and> \<bar>sum_list ws - 1\<bar> \<le> 1 / 256 + 2 / 2 ^ 134"
    apply (rule exI[of _ ws])
    apply (rule exI[of _ sel])
    using * by simp
  then show ?thesis
    using a b len by simp
qed

text \<open>
  Claim C4 as stated fails by the cast of line 691. Three equal logits with \<open>k = 3\<close> give
  three weights 1/3, which bfloat16 rounds to 171/512 each; their sum is 513/512, which
  misses 1 by more than \<open>1e-5\<close>.
\<close>

theorem routing_weights_sum_counterexample:
  "(case moe_routing_row_with softmax_f32 astype_bfloat16 3 [0, 0, 0] of
      Inl e \<Rightarrow> False
    | Inr r \<Rightarrow> fst r = [171 / 512, 171 / 512, 171 / 512]
        \<and> sum_list (fst r) = 513 / 512
        \<and> \<bar>sum_list (fst r) - 1\<bar> > 1 / 100000)"
  by (simp add: routing_zeros3)

section \<open>Properties of the load-balancing loss\<close>

lemma collect_map_Inr:
  "(\<And>x. x \<in> set xs \<Longrightarrow> f x = Inr (h x)) \<Longrightarrow> collect (map f xs) = Inr (map h xs)"
  by (induction xs) auto

lemma collect_map_Inl:
  "xs \<noteq> [] \<Longrightarrow> (\<And>x. x \<in> set xs \<Longrightarrow> f x = Inl e) \<Longrightarrow> collect (map f xs) = Inl e"
  by (cases xs) auto

lemma loss_routing_row_Inr:
  "k \<le> length row \<Longrightarrow>
     loss_routing_row k row = Inr (softmax (map (\<lambda>i. row ! i) (sel_of k row)), sel_of k row)"
  by (simp add: loss_routing_row_def top_k_def sel_of_def Let_def)

lemma sel_of_props:
  assumes "k \<le> length row"
  shows "length (sel_of k row) = k" and "\<And>s. s \<in> set (sel_of k row) \<Longrightarrow> s < length row"
  using assms set_argsort_desc[of row]
  by (auto simp: sel_of_def length_argsort_desc dest: in_set_takeD)

lemma sum_list_softmax: "xs \<noteq> [] \<Longrightarrow> sum_list (softmax xs) = 1"
proof -
  assume "xs \<noteq> []"
  then have "0 < sum_list (map exp xs)" by (rule sum_exp_pos)
  moreover have "sum_list (map (\<lambda>x. exp x / sum_list (map exp xs)) xs)
      = sum_list (map exp xs) / sum_list (map exp xs)"
    by (rule sum_list_map_divide)
  ultimately show ?thesis by (simp add: softmax_def)
qed

lemma mean_softmax: "xs \<noteq> [] \<Longrightarrow> mean (softmax xs) = 1 / real (length xs)"
  by (simp add: mean_def sum_list_softmax length_softmax)

lemma sum_list_one_hot: "s < n \<Longrightarrow> sum_list (one_hot s n) = 1"
proof -
  assume "s < n"
  have "sum_list (map (\<lambda>c. if c = s then 1 else 0) [0..<n]) = (\<Sum>c = 0..<n. if c = s then (1::real) else 0)"
    by (simp add: interv_sum_list_conv_sum_set_nat)
  also have "\<dots> = 1" using \<open>s < n\<close> by simp
  finally show ?thesis by (simp add: one_hot_def)
qed

lemma one_hot_nth: "c < n \<Longrightarrow> one_hot s n ! c = (if c = s then 1 else 0)"
  by (simp add: one_hot_def)

lemma sum_list_mean_rows_one_hot:
  assumes "\<And>s. s \<in> set sel \<Longrightarrow> s < n" and "sel \<noteq> []"
  shows "sum_list (mean_rows n (map (\<lambda>s. one_hot s n) sel)) = 1"
proof -
  have "sum_list (mean_rows n (map (\<lambda>s. one_hot s n) sel))
      = (\<Sum>c = 0..<n. (\<Sum>s\<leftarrow>sel. one_hot s n ! c) / real (length sel))"
    by (simp add: mean_rows_def mean_def interv_sum_list_conv_sum_set_nat comp_def)
  also have "\<dots> = (\<Sum>c = 0..<n. (\<Sum>s\<leftarrow>sel. one_hot s n ! c)) / real (length sel)"
    by (simp add: sum_divide_distrib)
  also have "(\<Sum>c = 0..<n. (\<Sum>s\<leftarrow>sel. one_hot s n ! c)) = (\<Sum>s\<leftarrow>sel. (\<Sum>c = 0..<n. one_hot s n ! c))"
    by (induction sel) (simp_all add: sum.distrib)
  also have "\<dots> = (\<Sum>s\<leftarrow>sel. 1)"
  proof (rule arg_cong[where f = sum_list], rule map_cong[OF refl])
    fix s assume "s \<in> set sel"
    then have "s < n" by (rule assms(1))
    have "(\<Sum>c = 0..<n. one_hot s n ! c) = (\<Sum>c = 0..<n. if c = s then (1::real) else 0)"
      by (rule sum.cong) (simp_all add: one_hot_nth)
    also have "\<dots> = 1" using \<open>s < n\<close> by simp
    finally show "(\<Sum>c = 0..<n. one_hot s n ! c) = (1::real)" .
  qed
  also have "\<dots> = real (length sel)"
    by (simp add: sum_list_triv)
  finally show ?thesis using assms(2) by simp
qed


lemma map2_same: "map2 f (map a xs) (map b xs) = map (\<lambda>x. f (a x) (b x)) xs"
  by (induction xs) auto

lemma loss_routing_Inr:
  assumes "\<And>row. row \<in> set g \<Longrightarrow> k \<le> length row"
  shows "loss_routing k g =
     Inr (map (\<lambda>row. (softmax (map (\<lambda>i. row ! i) (sel_of k row)), sel_of k row)) g)"
  unfolding loss_routing_def
  by (rule collect_map_Inr) (simp add: loss_routing_row_Inr assms)

lemma loss_array_unfold:
  assumes "\<And>row. row \<in> set g \<Longrightarrow> k \<le> length row"
  shows "load_balancing_loss_array g n k =
     Inr (mean (concat (map (token_products n k) g)) * (real n)\<^sup>2)"
proof -
  have r: "loss_routing k g =
     Inr (map (\<lambda>row. (softmax (map (\<lambda>i. row ! i) (sel_of k row)), sel_of k row)) g)"
    by (rule loss_routing_Inr) (rule assms)
  show ?thesis
    unfolding load_balancing_loss_array_def r
    by (simp add: Let_def zip_map_map zip_same_conv_map comp_def token_products_def[abs_def])
qed

lemma length_token_products: "length (token_products n k row) = n"
  by (simp add: token_products_def mean_rows_def)

lemma sum_token_products:
  assumes "k \<le> length row" "length row = n" "0 < k"
  shows "sum_list (token_products n k row) = 1 / real k"
proof -
  let ?sel = "sel_of k row"
  have len: "length ?sel = k" using assms by (simp add: sel_of_props)
  then have ne: "?sel \<noteq> []" using assms by auto
  have "\<And>s. s \<in> set ?sel \<Longrightarrow> s < n" using assms sel_of_props(2)[of k row] by auto
  then have one: "sum_list (mean_rows n (map (\<lambda>s. one_hot s n) ?sel)) = 1"
    using ne by (rule sum_list_mean_rows_one_hot)
  have m: "mean (softmax (map (\<lambda>i. row ! i) ?sel)) = 1 / real k"
    using ne len by (simp add: mean_softmax)
  have "sum_list (token_products n k row)
      = sum_list (mean_rows n (map (\<lambda>s. one_hot s n) ?sel)) * (1 / real k)"
    unfolding token_products_def m
    using sum_list_map_divide[of "\<lambda>x. x" "real k" "mean_rows n (map (\<lambda>s. one_hot s n) ?sel)"]
    by simp
  then show ?thesis using one by simp
qed

lemma sum_concat_token_products:
  assumes "\<And>row. row \<in> set g \<Longrightarrow> length row = n" "k \<le> n" "0 < k"
  shows "sum_list (concat (map (token_products n k) g)) = real (length g) / real k"
  using assms(1)
proof (induction g)
  case Nil
  then show ?case by simp
next
  case (Cons row g)
  have "sum_list (token_products n k row) = 1 / real k"
    using Cons.prems assms(2,3) by (intro sum_token_products) auto
  moreover have "sum_list (concat (map (token_products n k) g)) = real (length g) / real k"
    using Cons by auto
  ultimately show ?case by (simp add: add_divide_distrib)
qed

lemma length_concat_token_products:
  "length (concat (map (token_products n k) g)) = length g * n"
  by (induction g) (simp_all add: length_token_products)

lemma token_products_k0: "token_products n 0 row = replicate n 0"
  by (simp add: token_products_def sel_of_def softmax_def mean_def mean_rows_def map_replicate_const)

lemma sum_concat_token_products_k0:
  "sum_list (concat (map (token_products n 0) g)) = 0"
  by (induction g) (simp_all add: token_products_k0 sum_list_replicate)

lemma loss_array_closed:
  assumes "\<And>row. row \<in> set g \<Longrightarrow> length row = n" "k \<le> n"
  shows "load_balancing_loss_array g n k =
     Inr (if g = [] \<or> k = 0 then 0 else real n / real k)"
proof -
  have u: "load_balancing_loss_array g n k =
     Inr (mean (concat (map (token_products n k) g)) * (real n)\<^sup>2)"
    by (rule loss_array_unfold) (use assms in auto)
  show ?thesis
  proof (cases "g = [] \<or> k = 0")
    case True
    then show ?thesis
      unfolding u by (auto simp: mean_def sum_concat_token_products_k0)
  next
    case False
    then have k: "0 < k" and g: "0 < length g" by auto
    then have n: "0 < n" using assms(2) by simp
    have "mean (concat (map (token_products n k) g)) = (real (length g) / real k) / real (length g * n)"
      unfolding mean_def length_concat_token_products
      using sum_concat_token_products[OF assms(1) assms(2) k] by simp
    then show ?thesis
      unfolding u using False k g n by (simp add: power2_eq_square)
  qed
qed

lemma loss_array_error:
  assumes "\<And>row. row \<in> set g \<Longrightarrow> length row = n" "n < k" "g \<noteq> []"
  shows "load_balancing_loss_array g m k = Inl ValueError"
proof -
  have "loss_routing k g = Inl ValueError"
    unfolding loss_routing_def
    by (rule collect_map_Inl[OF assms(3)]) (use assms in \<open>simp add: loss_routing_row_def top_k_def\<close>)
  then show ?thesis by (simp add: load_balancing_loss_array_def)
qed

lemma loss_array_empty: "load_balancing_loss_array [] m k = Inr 0"
  by (simp add: load_balancing_loss_array_def loss_routing_def mean_def)

lemma permute_experts_rows:
  "row \<in> set (permute_experts p g) \<Longrightarrow> (\<And>r. r \<in> set g \<Longrightarrow> length r = n) \<Longrightarrow> length row = n"
  by (auto simp: permute_experts_def)

text \<open>
  On an array with \<open>num_experts\<close> columns and at least one row, and for
  \<open>1 \<le> k \<le> num_experts\<close>, the value computed by lines 288 to 298 does not depend on
  the logits: it is \<open>num_experts / k\<close>.
\<close>

lemma load_balancing_loss_constant:
  assumes "\<And>row. row \<in> set g \<Longrightarrow> length row = n" and "0 < k" and "k \<le> n" and "g \<noteq> []"
  shows "jax_load_balancing_loss_func (LogitsArray g) n k = Inr (real n / real k)"
  using loss_array_closed[of g n k] assms by simp

text \<open>
  Claim C10. For every array of router logits with \<open>n\<close> columns, every \<open>k\<close> and every
  permutation \<open>p\<close> of the expert indices \<open>0..<n\<close>, the loss of the array with its expert
  columns permuted by \<open>p\<close> equals the loss of the array itself (the same value, or the
  same rejection when \<open>k\<close> exceeds \<open>n\<close>). For an array without rows or for \<open>k = 0\<close>
  both sides are the same division by zero.
\<close>

theorem load_balancing_loss_permutation_invariant:
  assumes "\<forall>row \<in> set g. length row = n" and "bij_betw p {..<n} {..<n}"
  shows "jax_load_balancing_loss_func (LogitsArray (permute_experts p g)) n k
       = jax_load_balancing_loss_func (LogitsArray g) n k"
proof -
  have orig: "\<And>row. row \<in> set g \<Longrightarrow> length row = n"
    using assms(1) by simp
  have rows: "\<And>row. row \<in> set (permute_experts p g) \<Longrightarrow> length row = n"
    using assms(1) by (auto simp: permute_experts_def)
  have e: "(permute_experts p g = []) = (g = [])"
    by (simp add: permute_experts_def)
  have "load_balancing_loss_array (permute_experts p g) n k = load_balancing_loss_array g n k"
  proof (cases "k \<le> n")
    case True
    then show ?thesis
      using loss_array_closed[OF rows True] loss_array_closed[OF orig True] e by simp
  next
    case False
    then have "n < k"
      by simp
    show ?thesis
    proof (cases "g = []")
      case True
      then show ?thesis
        by (simp add: permute_experts_def)
    next
      case False
      then show ?thesis
        using loss_array_error[OF rows \<open>n < k\<close>] loss_array_error[OF orig \<open>n < k\<close>] e by simp
    qed
  qed
  then show ?thesis
    by simp
qed

theorem load_balancing_loss_permutation_invariant_witness:
  "length [1, 0::real] = 2 \<and> length [0, 1::real] = 2
     \<and> bij_betw (\<lambda>j. 1 - j) {..<2::nat} {..<2}
     \<and> jax_load_balancing_loss_func
          (LogitsArray (permute_experts (\<lambda>j. 1 - j) [[1, 0], [0, 1]])) 2 1
       = jax_load_balancing_loss_func (LogitsArray [[1, 0], [0, 1]]) 2 1"
proof -
  have rows: "\<forall>row \<in> set [[1, 0], [0, 1::real]]. length row = 2"
    by simp
  have "{..<2::nat} = {0, 1}"
    by auto
  then have bij: "bij_betw (\<lambda>j. 1 - j) {..<2::nat} {..<2}"
    by (auto simp: bij_betw_def inj_on_def)
  show ?thesis
    using bij load_balancing_loss_permutation_invariant[OF rows bij, of 1] by simp
qed

text \<open>
  Claim C2 at the logits \<open>[[1, 0], [0, 1]]\<close> with two experts and \<open>k = 1\<close>. Each expert
  receives one of the two tokens, so the fraction of tokens per expert is 1/2 and the mean
  routing probability per expert is 1/2: the loss of the claim is \<open>2\<^sup>2 * (1/2 * 1/2) = 1\<close>.
  The function returns 2.
\<close>

theorem load_balancing_loss_differs_from_spec:
  "jax_load_balancing_loss_func (LogitsArray [[1, 0], [0, 1]]) 2 1 = Inr 2
     \<and> spec_load_balancing_loss [[1, 0], [0, 1]] 2 1 = Inr 1"
proof
  have "load_balancing_loss_array [[1, 0], [0, 1]] 2 1 =
     Inr (if [[1, 0], [0, 1]] = ([]::real list list) \<or> (1::nat) = 0 then 0 else real 2 / real 1)"
    by (rule loss_array_closed) auto
  then show "jax_load_balancing_loss_func (LogitsArray [[1, 0], [0, 1]]) 2 1 = Inr 2"
    by simp
  show "spec_load_balancing_loss [[1, 0], [0, 1]] 2 1 = Inr 1"
    unfolding spec_load_balancing_loss_def routing_agree[symmetric]
    by (simp add: loss_routing_def loss_routing_row_def top_k_def argsort_desc_def
        softmax_def token_fraction_per_expert_def mean_routing_prob_per_expert_def mean_def
        upt_conv_Cons)
qed

section \<open>Properties of the sparse block\<close>

lemma foldl_keep: "foldl (\<lambda>acc i. acc) a xs = a"
  by (induction xs) auto

lemma custom_index_add_returns_argument:
  "custom_index_add_without_index_add final top_x idx cur = final"
  by (simp add: custom_index_add_without_index_add_def Let_def foldl_keep)

lemma expert_pass_returns_argument:
  "expert_pass act_fn hidden_states routing_weights n final sl = final"
  by (simp add: expert_pass_def Let_def custom_index_add_returns_argument)

lemma foldl_expert_pass:
  "foldl (expert_pass act_fn hidden_states routing_weights n) final sls = final"
  by (induction sls) (simp_all add: expert_pass_returns_argument)

lemma collection_call_zeros:
  "FlaxMixtralBlocKSparesTop2MLPCollection_call act_fn layers expert_mask hidden_states
       routing_weights batch_size sequence_length hidden_dim
     = replicate (batch_size * sequence_length) (replicate hidden_dim 0)"
  by (simp add: FlaxMixtralBlocKSparesTop2MLPCollection_call_def foldl_expert_pass)

text \<open>
  Whatever the input, the experts and the routing decision are, the block returns the array
  of zeros that line 614 allocates: no pass of the loop over the experts changes it.
\<close>

lemma moe_block_zeros:
  "FlaxMixtralSparseMoeBlock_call act_fn k params hs =
     (case moe_routing k (map (dense (gate params)) (tokens hs)) of
        Inl e \<Rightarrow> Inl e
      | Inr routing \<Rightarrow>
          Inr (hs\<lparr>tokens := replicate (batch hs * seq_len hs) (replicate (hidden hs) 0)\<rparr>,
               map (dense (gate params)) (tokens hs)))"
  by (simp add: FlaxMixtralSparseMoeBlock_call_def Let_def collection_call_zeros
      split: sum.splits)

text \<open>
  Claim C1 at one token with hidden size 1, one expert whose three kernels are the 1x1
  matrix 1, the activation \<open>relu\<close> and \<open>k = 1\<close>. The token's only routing weight is 1 and
  the expert maps the token \<open>[1]\<close> to \<open>[1]\<close>, so the weighted sum of the claim is \<open>[1]\<close>;
  the block returns \<open>[0]\<close>.
\<close>

theorem moe_block_output_is_zero:
  "FlaxMixtralSparseMoeBlock_call (\<lambda>x. max 0 x) 1
       \<lparr>gate = [[0]], experts = [\<lparr>w1 = [[1]], w3 = [[1]], w2 = [[1]]\<rparr>]\<rparr>
       \<lparr>batch = 1, seq_len = 1, hidden = 1, tokens = [[1]]\<rparr>
     = Inr (\<lparr>batch = 1, seq_len = 1, hidden = 1, tokens = [[0]]\<rparr>, [[0]])
   \<and> spec_moe_block (\<lambda>x. max 0 x) 1
       \<lparr>gate = [[0]], experts = [\<lparr>w1 = [[1]], w3 = [[1]], w2 = [[1]]\<rparr>]\<rparr>
       \<lparr>batch = 1, seq_len = 1, hidden = 1, tokens = [[1]]\<rparr>
     = Inr (\<lparr>batch = 1, seq_len = 1, hidden = 1, tokens = [[1]]\<rparr>, [[0]])"
  by (simp add: moe_block_zeros spec_moe_block_def moe_routing_def moe_routing_row_def top_k_def
      argsort_desc_def softmax_def renormalize_def dense_def moe_weighted_sum_def
      FlaxMixtralBLockSparseTop2MLP_call_def)

section \<open>The pass that creates the parameters: construction\<close>

lemma layer_collection_closed:
  "collect (map (\<lambda>layer_index. r) [0..<n]) =
     (case r of
        Inl e \<Rightarrow> if n = 0 then Inr [] else Inl e
      | Inr v \<Rightarrow> Inr (replicate n v))"
proof (cases r)
  case (Inl e)
  show ?thesis
  proof (cases "n = 0")
    case True
    then show ?thesis by (simp add: Inl)
  next
    case False
    then have "collect (map (\<lambda>layer_index. r) [0..<n]) = Inl e"
      by (intro collect_map_Inl) (simp_all add: Inl)
    then show ?thesis using False by (simp add: Inl)
  qed
next
  case (Inr v)
  have "collect (map (\<lambda>layer_index. r) [0..<n]) = Inr (map (\<lambda>layer_index. v) [0..<n])"
    by (rule collect_map_Inr) (simp add: Inr)
  then show ?thesis
    by (simp add: Inr map_replicate_const)
qed











section \<open>The language-model head and the auxiliary loss\<close>

text \<open>
  When router logits were requested and the inner module returns them, the call reads
  \<^verbatim>\<open>self.num_experts\<close> (line 1239), which the module does not have.
\<close>

lemma causal_lm_aux_loss_attribute_error:
  assumes "model (Some True) = Inr outputs" and "router_logits outputs = Some gate_logits"
  shows "FlaxMixtralForCausalLMModule_call config model lm_head (Some True) return_dict
           = Inl AttributeError"
  using assms
  by (simp add: FlaxMixtralForCausalLMModule_call_def Let_def getattr_int_def
      FlaxMixtralForCausalLMModule_attributes_def)

lemma causal_lm_without_router_logits:
  assumes "model flag = Inr outputs" and "flag \<noteq> Some True"
  shows "FlaxMixtralForCausalLMModule_call config model lm_head flag True
           = Inr (AsOutput \<lparr>aux_loss = None,
                   logits = (last_hidden_state outputs)
                              \<lparr>hidden := length lm_head,
                               tokens := map (dense lm_head) (tokens (last_hidden_state outputs))\<rparr>,
                   lm_router_logits = router_logits outputs\<rparr>)"
  using assms
  by (simp add: FlaxMixtralForCausalLMModule_call_def Let_def split: option.splits)

lemma dense_zero: "dense (replicate m (replicate n 0)) (replicate n 0) = replicate m 0"
  by (simp add: dense_def map_replicate_const sum_list_replicate)

text \<open>
  Claim C9 in the scenario vocab = 32000, hidden = 64, heads = 4, kv\_heads = 2,
  layers = 2, experts = 4, top\_k = 2 on a batch of one sequence of five tokens. The inner
  module is taken to return a (1, 5, 64) hidden state and, when asked, two (5, 4) arrays
  of router logits; their values play no part. With router logits requested the call
  raises \<^verbatim>\<open>AttributeError\<close>; without, it returns logits of shape (1, 5, 32000) and no
  auxiliary loss.
\<close>

theorem causal_lm_aux_loss_raises:
  "FlaxMixtralForCausalLMModule_call
     (MixtralConfig_init 32000 64 128 2 4 (Some 2) 4096 2 4 False)
     (\<lambda>flag. Inr \<lparr>last_hidden_state =
                    \<lparr>batch = 1, seq_len = 5, hidden = 64, tokens = replicate 5 (replicate 64 0)\<rparr>,
                  router_logits = (if flag = Some True
                                   then Some (replicate 2 (replicate 5 (replicate 4 0)))
                                   else None)\<rparr>)
     (replicate 32000 (replicate 64 0)) (Some True) True = Inl AttributeError
   \<and> FlaxMixtralForCausalLMModule_call
     (MixtralConfig_init 32000 64 128 2 4 (Some 2) 4096 2 4 False)
     (\<lambda>flag. Inr \<lparr>last_hidden_state =
                    \<lparr>batch = 1, seq_len = 5, hidden = 64, tokens = replicate 5 (replicate 64 0)\<rparr>,
                  router_logits = (if flag = Some True
                                   then Some (replicate 2 (replicate 5 (replicate 4 0)))
                                   else None)\<rparr>)
     (replicate 32000 (replicate 64 0)) None True
     = Inr (AsOutput \<lparr>aux_loss = None,
              logits = \<lparr>batch = 1, seq_len = 5, hidden = 32000,
                         tokens = replicate 5 (replicate 32000 0)\<rparr>,
              lm_router_logits = None\<rparr>)"
  by (simp add: FlaxMixtralForCausalLMModule_call_def Let_def getattr_int_def
      FlaxMixtralForCausalLMModule_attributes_def dense_zero)

section \<open>The pass that creates the cache\<close>

lemma attention_call_shapes_init_cache:
  assumes nh: "0 < num_attention_heads config" and nkv: "0 < num_key_value_heads config"
    and d1: "num_key_value_heads config dvd num_attention_heads config"
    and d2: "num_attention_heads config dvd hidden_size config"
    and h: "0 \<le> hidden_size config"
    and ev: "even (hidden_size config div num_attention_heads config)"
    and fit: "max_length \<le> side"
  shows "FlaxMixtralAttention_call_shapes config side True batch_size max_length =
     Inr (Some (init_cache_variables
            [batch_size, max_length, nat (num_attention_heads config),
             nat (hidden_size config div num_attention_heads config)]))"
proof -
  let ?hd = "hidden_size config div num_attention_heads config"
  let ?g = "num_attention_heads config div num_key_value_heads config"
  have hd: "0 \<le> ?hd"
    using nh h by (simp add: pos_imp_zdiv_nonneg_iff)
  have g: "0 \<le> ?g"
    using nh nkv by (simp add: pos_imp_zdiv_nonneg_iff)
  have m1: "num_key_value_heads config * ?g = num_attention_heads config"
    using d1 by simp
  have m2: "num_attention_heads config * ?hd = hidden_size config"
    using d2 by simp
  have "nat (num_key_value_heads config) * nat ?g = nat (num_key_value_heads config * ?g)"
    using nkv g by (simp add: nat_mult_distrib)
  then have m3: "nat (num_key_value_heads config) * nat ?g = nat (num_attention_heads config)"
    by (simp only: m1)
  have ev': "even (nat ?hd)"
    using ev hd by (simp add: even_nat_iff)
  have key: "t_rotary_key_shape
               \<lparr>a_hidden_size = hidden_size config, a_num_heads = num_attention_heads config,
                a_head_dim = ?hd, a_num_key_value_heads = num_key_value_heads config,
                a_num_key_value_groups = ?g,
                a_max_position_embeddings = max_position_embeddings config\<rparr>
               batch_size max_length
             = Inr [batch_size, max_length, nat (num_attention_heads config), nat ?hd]"
    using nh nkv hd g ev' by (simp add: t_rotary_key_shape_def rotary_shape_def Let_def m3)
  have dims: "FlaxMixtralAttention_setup config =
     Inr \<lparr>a_hidden_size = hidden_size config, a_num_heads = num_attention_heads config,
          a_head_dim = ?hd, a_num_key_value_heads = num_key_value_heads config,
          a_num_key_value_groups = ?g,
          a_max_position_embeddings = max_position_embeddings config\<rparr>"
    using nh nkv by (simp add: FlaxMixtralAttention_setup_def py_floordiv_def)
  show ?thesis
    using fit by (simp add: FlaxMixtralAttention_call_shapes_def dims key Let_def m1 m2)
qed

lemma cache_collection_replicate:
  "cache_collection (replicate n (Some c)) = replicate n c"
  by (induction n) simp_all

lemma init_cache_closed:
  assumes v: "0 \<le> vocab_size config" and h: "0 \<le> hidden_size config"
    and i: "0 \<le> intermediate_size config"
    and l: "1 \<le> num_hidden_layers config"
    and nh: "0 < num_attention_heads config" and nkv: "0 < num_key_value_heads config"
    and d1: "num_key_value_heads config dvd num_attention_heads config"
    and d2: "num_attention_heads config dvd hidden_size config"
    and ev: "even (hidden_size config div num_attention_heads config)"
    and k0: "0 \<le> num_experts_per_tok config"
    and ke: "num_experts_per_tok config \<le> num_local_experts config"
    and fit: "int max_length \<le> c_max"
  shows "init_cache config c_max batch_size max_length =
     Inr (replicate (nat (num_hidden_layers config))
            (init_cache_variables
               [batch_size, max_length, nat (num_attention_heads config),
                nat (hidden_size config div num_attention_heads config)]))"
proof -
  let ?c = "init_cache_variables
               [batch_size, max_length, nat (num_attention_heads config),
                nat (hidden_size config div num_attention_heads config)]"
  have c0: "0 \<le> c_max"
    using fit by simp
  then have s: "FlaxMixtralModule_setup config c_max = Inr (nat c_max)"
    using nh by (simp add: FlaxMixtralModule_setup_def py_floordiv_def)
  have e: "nn_Embed_shape (vocab_size config) (hidden_size config) [batch_size, max_length]
             = Inr [batch_size, max_length, nat (hidden_size config)]"
    using v h by (simp add: nn_Embed_shape_def)
  have fit': "max_length \<le> nat c_max"
    using fit by simp
  have a: "FlaxMixtralAttention_call_shapes config (nat c_max) True batch_size max_length
             = Inr (Some ?c)"
    by (rule attention_call_shapes_init_cache[OF nh nkv d1 d2 h ev fit'])
  have m: "FlaxMixtralSparseMoeBlock_call_shapes config batch_size max_length
             = Inr [batch_size, max_length, nat (hidden_size config)]"
    using i k0 ke by (simp add: FlaxMixtralSparseMoeBlock_call_shapes_def)
  have d: "FlaxMixtralDecoderLayer_call_shapes config (nat c_max) True batch_size max_length
             = Inr (Some ?c)"
    by (simp add: FlaxMixtralDecoderLayer_call_shapes_def a m)
  have n: "nat (num_hidden_layers config) \<noteq> 0"
    using l by simp
  have "FlaxMixtralModule_call_shapes config c_max True batch_size max_length
          = Inr (replicate (nat (num_hidden_layers config)) ?c)"
    by (simp add: FlaxMixtralModule_call_shapes_def s e d layer_collection_closed
        cache_collection_replicate)
  then show ?thesis
    using n by (simp add: init_cache_def)
qed

text \<open>
  Claim C7, as amended. Take a configuration with a vocabulary size, hidden size and
  intermediate size that are positive, at least one layer, positive head counts of which
  \<open>num_key_value_heads\<close> divides \<open>num_attention_heads\<close> and \<open>num_attention_heads\<close> divides
  \<open>hidden_size\<close>, an even head dimension \<open>hidden_size div num_attention_heads\<close>, and at
  least one and at most \<open>num_local_experts\<close> experts per token; and take a positive batch
  size and a positive maximal length of at most \<open>c_max_position_embeddings\<close>. Then
  \<^verbatim>\<open>init_cache\<close> returns one cache per layer whose key and value storage is all zeros,
  of shape (batch\_size, max\_length, num\_attention\_heads, head dimension), with cursor
  0. The third dimension is the number of query heads: the keys are stored after their
  repetition.
\<close>

theorem init_cache_zeros_with_repeated_heads:
  assumes "0 < vocab_size config" and "0 < hidden_size config"
    and "0 < intermediate_size config"
    and "1 \<le> num_hidden_layers config"
    and "0 < num_attention_heads config" and "0 < num_key_value_heads config"
    and "num_key_value_heads config dvd num_attention_heads config"
    and "num_attention_heads config dvd hidden_size config"
    and "even (hidden_size config div num_attention_heads config)"
    and "0 < num_experts_per_tok config"
    and "num_experts_per_tok config \<le> num_local_experts config"
    and "0 < batch_size" and "0 < max_length" and "int max_length \<le> c_max"
  shows "init_cache config c_max batch_size max_length =
     Inr (replicate (nat (num_hidden_layers config))
            \<lparr>cache_key = jnp_zeros [batch_size, max_length, nat (num_attention_heads config),
               nat (hidden_size config div num_attention_heads config)],
             cache_value = jnp_zeros [batch_size, max_length, nat (num_attention_heads config),
               nat (hidden_size config div num_attention_heads config)],
             cache_index = 0\<rparr>)
    \<and> (\<forall>idx. elem (jnp_zeros [batch_size, max_length, nat (num_attention_heads config),
               nat (hidden_size config div num_attention_heads config)]) idx = 0)"
proof
  have "init_cache config c_max batch_size max_length =
     Inr (replicate (nat (num_hidden_layers config))
            (init_cache_variables
               [batch_size, max_length, nat (num_attention_heads config),
                nat (hidden_size config div num_attention_heads config)]))"
    by (rule init_cache_closed) (use assms in simp_all)
  then show "init_cache config c_max batch_size max_length =
     Inr (replicate (nat (num_hidden_layers config))
            \<lparr>cache_key = jnp_zeros [batch_size, max_length, nat (num_attention_heads config),
               nat (hidden_size config div num_attention_heads config)],
             cache_value = jnp_zeros [batch_size, max_length, nat (num_attention_heads config),
               nat (hidden_size config div num_attention_heads config)],
             cache_index = 0\<rparr>)"
    by (simp add: init_cache_variables_def)
  show "\<forall>idx. elem (jnp_zeros [batch_size, max_length, nat (num_attention_heads config),
               nat (hidden_size config div num_attention_heads config)]) idx = 0"
    by (simp add: jnp_zeros_def)
qed

theorem init_cache_zeros_with_repeated_heads_witness:
  "0 < vocab_size (MixtralConfig_init 32000 64 128 2 4 (Some 2) 4096 2 4 False)
   \<and> 0 < hidden_size (MixtralConfig_init 32000 64 128 2 4 (Some 2) 4096 2 4 False)
   \<and> 1 \<le> num_hidden_layers (MixtralConfig_init 32000 64 128 2 4 (Some 2) 4096 2 4 False)
   \<and> 0 < num_attention_heads (MixtralConfig_init 32000 64 128 2 4 (Some 2) 4096 2 4 False)
   \<and> 0 < num_key_value_heads (MixtralConfig_init 32000 64 128 2 4 (Some 2) 4096 2 4 False)
   \<and> (0::nat) < 1 \<and> (0::nat) < 8 \<and> int 8 \<le> 4096
   \<and> init_cache (MixtralConfig_init 32000 64 128 2 4 (Some 2) 4096 2 4 False) 4096 1 8 =
       Inr (replicate 2
              \<lparr>cache_key = jnp_zeros [1, 8, 4, 16], cache_value = jnp_zeros [1, 8, 4, 16],
               cache_index = 0\<rparr>)"
  using init_cache_zeros_with_repeated_heads
          [of "MixtralConfig_init 32000 64 128 2 4 (Some 2) 4096 2 4 False" 1 8 4096]
  by (simp add: MixtralConfig_init_def)

text \<open>
  Claim C7 as stated fails for hidden = 64, heads = 4, kv\_heads = 2 and two layers: the
  cache of \<open>init_cache 1 8\<close> has shape (1, 8, 4, 16) in both layers, with the query head
  count 4, where the claim has (1, 8, 2, 16). It fails too for a maximal length above
  \<^verbatim>\<open>c_max_position_embeddings\<close>, where no cache is returned.
\<close>

theorem init_cache_shape_counterexample:
  "(case init_cache (MixtralConfig_init 32000 64 128 2 4 (Some 2) 4096 2 4 False) 4096 1 8 of
      Inl e \<Rightarrow> False
    | Inr caches \<Rightarrow>
        map (\<lambda>c. shape (cache_key c)) caches = [[1, 8, 4, 16], [1, 8, 4, 16]]
        \<and> map (\<lambda>c. shape (cache_key c)) caches \<noteq> [[1, 8, 2, 16], [1, 8, 2, 16]])
   \<and> (\<exists>e. init_cache (MixtralConfig_init 32000 64 128 2 4 (Some 2) 4096 2 4 False)
              4096 1 4097 = Inl e)"
proof -
  let ?config = "MixtralConfig_init 32000 64 128 2 4 (Some 2) 4096 2 4 False"
  have "init_cache ?config 4096 1 8 = Inr (replicate (nat (num_hidden_layers ?config))
            (init_cache_variables
               [1, 8, nat (num_attention_heads ?config),
                nat (hidden_size ?config div num_attention_heads ?config)]))"
    by (rule init_cache_closed) (simp_all add: MixtralConfig_init_def)
  then have a: "init_cache ?config 4096 1 8
                  = Inr (replicate 2 (init_cache_variables [1, 8, 4, 16]))"
    by (simp add: MixtralConfig_init_def)
  have b: "init_cache ?config 4096 1 4097 = Inl TypeError"
    by (simp add: init_cache_def FlaxMixtralModule_call_shapes_def FlaxMixtralModule_setup_def
        nn_Embed_shape_def FlaxMixtralDecoderLayer_call_shapes_def
        FlaxMixtralAttention_call_shapes_def FlaxMixtralAttention_setup_def
        t_rotary_key_shape_def rotary_shape_def py_floordiv_def MixtralConfig_init_def
        layer_collection_closed Let_def)
  show ?thesis
    unfolding a b by (simp add: init_cache_variables_def jnp_zeros_def numeral_2_eq_2)
qed

section \<open>Writing to the cache\<close>

lemma sint_advance:
  fixes w :: "32 word"
  assumes "0 \<le> sint w" and "sint w + int n < 2 ^ 31"
  shows "sint (w + word_of_nat n) = sint w + int n"
proof -
  have n: "int n < 2 ^ 31"
    using assms by simp
  have a: "sint (word_of_nat n :: 32 word) = int n"
    using n by (simp add: signed_of_nat signed_take_bit_int_eq_self)
  have "sint (w + word_of_nat n) = signed_take_bit 31 (sint w + int n)"
    by (simp add: sint_word_add a)
  also have "\<dots> = sint w + int n"
    using assms by (intro signed_take_bit_int_eq_self) simp_all
  finally show ?thesis .
qed

lemma clamp_start_zero: "clamp_start 0 d d = 0"
  by (simp add: clamp_start_def)

lemma dus_rank4:
  assumes "shape operand = [b, ml, nh, dph]" and "shape update = [b, n, nh, dph]" and "n \<le> ml"
  shows "dynamic_update_slice operand update [0, s, 0, 0] =
     Inr \<lparr>shape = [b, ml, nh, dph],
          elem = (\<lambda>idx.
            if list_all2 (\<lambda>i su. fst su \<le> i \<and> i < fst su + snd su) idx
                 (zip [0, clamp_start s ml n, 0, 0] [b, n, nh, dph])
            then elem update (map2 (-) idx [0, clamp_start s ml n, 0, 0])
            else elem operand idx)\<rparr>"
  using assms by (simp add: dynamic_update_slice_def clamp_start_zero Let_def)


lemma dus_rank4_elem:
  assumes "shape operand = [b, ml, nh, dph]" and "shape update = [b, n, nh, dph]" and "n \<le> ml"
    and "dynamic_update_slice operand update [0, s, 0, 0] = Inr r"
    and "i < b" and "h < nh" and "d < dph"
  shows "elem r [i, j, h, d] =
     (if clamp_start s ml n \<le> j \<and> j < clamp_start s ml n + n
      then elem update [i, j - clamp_start s ml n, h, d]
      else elem operand [i, j, h, d])"
  using assms by (auto simp: dus_rank4)

lemma dus_rank4_shape:
  assumes "shape operand = [b, ml, nh, dph]" and "shape update = [b, n, nh, dph]" and "n \<le> ml"
    and "dynamic_update_slice operand update [0, s, 0, 0] = Inr r"
  shows "shape r = [b, ml, nh, dph]"
  using assms by (auto simp: dus_rank4)

lemma concatenate_to_cache_rank4:
  assumes kc: "shape (cache_key c) = [b, ml, nh, dph]"
    and vc: "shape (cache_value c) = [b, ml, nh, dph]"
    and k: "shape key = [b, n, nh, dph]"
    and v: "shape value = [b, n, nh, dph]"
    and q: "shape query = [b, n, qh, dph]"
    and fit: "n \<le> ml"
    and dk: "dynamic_update_slice (cache_key c) key [0, sint (cache_index c), 0, 0] = Inr key'"
    and dv: "dynamic_update_slice (cache_value c) value [0, sint (cache_index c), 0, 0] = Inr value'"
    and cm: "combine_masks (pad_mask_of b n ml (cache_index c + word_of_nat n)) attention_mask
               = Inr mask'"
  shows "concatenate_to_cache (Some c) query key value attention_mask =
     Inr (\<lparr>cache_key = key', cache_value = value',
           cache_index = cache_index c + word_of_nat n\<rparr>, query, key', value', mask')"
  using dk dv cm
  by (simp add: concatenate_to_cache_def kc vc k v q Let_def pad_mask_of_def numeral_3_eq_3)

lemma combine_masks_ok:
  assumes "length (shape m2) = length (shape m1)"
    and "list_all2 (\<lambda>a b. a = b \<or> a = 1 \<or> b = 1) (shape m1) (shape m2)"
  shows "combine_masks m1 m2 =
     Inr \<lparr>shape = map2 (\<lambda>a b. if a = 1 then b else a) (shape m1) (shape m2),
          elem = (\<lambda>idx. broadcast_elem m1 idx \<and> broadcast_elem m2 idx)\<rparr>"
  using assms by (simp add: combine_masks_def)


lemma clamp_start_nonneg:
  assumes "0 \<le> s" and "n \<le> ml"
  shows "clamp_start s ml n = nat (min s (int ml - int n))"
  using assms by (simp add: clamp_start_def)

lemma pad_mask_combined:
  assumes mk: "list_all2 (\<lambda>a m. m = a \<or> m = 1) [b, 1, n, ml] (shape attention_mask)"
  shows "\<exists>mask'. combine_masks (pad_mask_of b n ml w) attention_mask = Inr mask'
           \<and> shape mask' = [b, 1, n, ml]
           \<and> (\<forall>i t j. i < b \<and> t < n \<and> j < ml \<longrightarrow>
                elem mask' [i, 0, t, j]
                  = (int j < sint w \<and> broadcast_elem attention_mask [i, 0, t, j]))"
proof -
  from mk obtain m0 m1 m2 m3 where sm: "shape attention_mask = [m0, m1, m2, m3]"
    and c: "m0 = b \<or> m0 = 1" "m1 = 1" "m2 = n \<or> m2 = 1" "m3 = ml \<or> m3 = 1"
    by (auto simp: list_all2_Cons1)
  have ok: "combine_masks (pad_mask_of b n ml w) attention_mask =
     Inr \<lparr>shape = [b, 1, n, ml],
          elem = (\<lambda>idx. broadcast_elem (pad_mask_of b n ml w) idx
                        \<and> broadcast_elem attention_mask idx)\<rparr>"
    using c by (auto simp: combine_masks_def pad_mask_of_def sm)
  have "\<And>i t j. j < ml \<Longrightarrow>
          broadcast_elem (pad_mask_of b n ml w) [i, 0, t, j] = (int j < sint w)"
    by (auto simp: broadcast_elem_def pad_mask_of_def)
  then show ?thesis
    unfolding ok by simp
qed

lemma cache_update_general:
  assumes kc: "shape (cache_key c) = [b, ml, nh, dph]"
    and vc: "shape (cache_value c) = [b, ml, nh, dph]"
    and k: "shape key = [b, n, nh, dph]"
    and v: "shape value = [b, n, nh, dph]"
    and q: "shape query = [b, n, qh, dph]"
    and fit: "n \<le> ml"
    and mk: "list_all2 (\<lambda>a m. m = a \<or> m = 1) [b, 1, n, ml] (shape attention_mask)"
  shows "\<exists>c' mask'.
      concatenate_to_cache (Some c) query key value attention_mask
        = Inr (c', query, cache_key c', cache_value c', mask')
      \<and> cache_index c' = cache_index c + word_of_nat n
      \<and> shape (cache_key c') = [b, ml, nh, dph]
      \<and> shape (cache_value c') = [b, ml, nh, dph]
      \<and> (\<forall>i j h d. i < b \<and> h < nh \<and> d < dph \<longrightarrow>
            elem (cache_key c') [i, j, h, d]
              = (if clamp_start (sint (cache_index c)) ml n \<le> j
                    \<and> j < clamp_start (sint (cache_index c)) ml n + n
                 then elem key [i, j - clamp_start (sint (cache_index c)) ml n, h, d]
                 else elem (cache_key c) [i, j, h, d]))
      \<and> (\<forall>i j h d. i < b \<and> h < nh \<and> d < dph \<longrightarrow>
            elem (cache_value c') [i, j, h, d]
              = (if clamp_start (sint (cache_index c)) ml n \<le> j
                    \<and> j < clamp_start (sint (cache_index c)) ml n + n
                 then elem value [i, j - clamp_start (sint (cache_index c)) ml n, h, d]
                 else elem (cache_value c) [i, j, h, d]))
      \<and> shape mask' = [b, 1, n, ml]
      \<and> (\<forall>i t j. i < b \<and> t < n \<and> j < ml \<longrightarrow>
            elem mask' [i, 0, t, j]
              = (int j < sint (cache_index c') \<and> broadcast_elem attention_mask [i, 0, t, j]))"
proof -
  let ?s = "sint (cache_index c)"
  obtain key' where dk: "dynamic_update_slice (cache_key c) key [0, ?s, 0, 0] = Inr key'"
    using dus_rank4[OF kc k fit] by blast
  obtain value' where dv: "dynamic_update_slice (cache_value c) value [0, ?s, 0, 0] = Inr value'"
    using dus_rank4[OF vc v fit] by blast
  obtain mask' where cm:
      "combine_masks (pad_mask_of b n ml (cache_index c + word_of_nat n)) attention_mask = Inr mask'"
    and ms: "shape mask' = [b, 1, n, ml]"
    and me: "\<forall>i t j. i < b \<and> t < n \<and> j < ml \<longrightarrow>
                elem mask' [i, 0, t, j]
                  = (int j < sint (cache_index c + word_of_nat n)
                     \<and> broadcast_elem attention_mask [i, 0, t, j])"
    using pad_mask_combined[OF mk] by blast
  let ?c' = "\<lparr>cache_key = key', cache_value = value',
              cache_index = cache_index c + word_of_nat n\<rparr>"
  have call: "concatenate_to_cache (Some c) query key value attention_mask =
     Inr (?c', query, key', value', mask')"
    by (rule concatenate_to_cache_rank4[OF kc vc k v q fit dk dv cm])
  have ke: "\<forall>i j h d. i < b \<and> h < nh \<and> d < dph \<longrightarrow>
            elem key' [i, j, h, d]
              = (if clamp_start ?s ml n \<le> j \<and> j < clamp_start ?s ml n + n
                 then elem key [i, j - clamp_start ?s ml n, h, d]
                 else elem (cache_key c) [i, j, h, d])"
    using dus_rank4_elem[OF kc k fit dk] by blast
  have ve: "\<forall>i j h d. i < b \<and> h < nh \<and> d < dph \<longrightarrow>
            elem value' [i, j, h, d]
              = (if clamp_start ?s ml n \<le> j \<and> j < clamp_start ?s ml n + n
                 then elem value [i, j - clamp_start ?s ml n, h, d]
                 else elem (cache_value c) [i, j, h, d])"
    using dus_rank4_elem[OF vc v fit dv] by blast
  have ks: "shape key' = [b, ml, nh, dph]"
    by (rule dus_rank4_shape[OF kc k fit dk])
  have vs: "shape value' = [b, ml, nh, dph]"
    by (rule dus_rank4_shape[OF vc v fit dv])
  show ?thesis
    apply (rule exI[of _ ?c'])
    apply (rule exI[of _ mask'])
    using call ke ve ks vs ms me by simp
qed


lemmas cache_eval =
  concatenate_to_cache_def init_cache_variables_def jnp_zeros_def dynamic_update_slice_def
  clamp_start_def combine_masks_def broadcast_elem_def all_valid_def Let_def

lemma cache_scenario:
  "cache_index (init_cache_variables [1, 8, 4, 16]) = 0
   \<and> (case concatenate_to_cache (Some (init_cache_variables [1, 8, 4, 16]))
            \<lparr>shape = [1, 1, 4, 16], elem = q1\<rparr> \<lparr>shape = [1, 1, 4, 16], elem = k1\<rparr>
            \<lparr>shape = [1, 1, 4, 16], elem = v1\<rparr> (all_valid [1, 1, 1, 8]) of
        Inl e \<Rightarrow> False
      | Inr r1 \<Rightarrow>
          cache_index (fst r1) = 1
          \<and> (case concatenate_to_cache (Some (fst r1))
                   \<lparr>shape = [1, 1, 4, 16], elem = q2\<rparr> \<lparr>shape = [1, 1, 4, 16], elem = k2\<rparr>
                   \<lparr>shape = [1, 1, 4, 16], elem = v2\<rparr> (all_valid [1, 1, 1, 8]) of
               Inl e \<Rightarrow> False
             | Inr r2 \<Rightarrow>
                 cache_index (fst r2) = 2
                 \<and> filter (\<lambda>j. elem (snd (snd (snd (snd r2)))) [0, 0, 0, j]) [0..<8] = [0, 1]
                 \<and> elem (cache_key (fst r2)) [0, 0, 2, 3] = k1 [0, 0, 2, 3]
                 \<and> elem (cache_key (fst r2)) [0, 1, 2, 3] = k2 [0, 0, 2, 3]
                 \<and> elem (cache_key (fst r2)) [0, 2, 2, 3] = 0))"
  by (simp add: cache_eval upt_conv_Cons)

lemma concatenate_to_cache_too_long:
  assumes "shape (cache_key c) = [b, ml, nh, dph]" and "shape key = [b, n, nh, dph]"
    and "ml < n"
  shows "concatenate_to_cache (Some c) query key value attention_mask = Inl TypeError"
  using assms by (simp add: concatenate_to_cache_def dynamic_update_slice_def Let_def)

lemma concatenate_to_cache_mask_rank:
  assumes kc: "shape (cache_key c) = [b, ml, nh, dph]"
    and vc: "shape (cache_value c) = [b, ml, nh, dph]"
    and k: "shape key = [b, n, nh, dph]"
    and v: "shape value = [b, n, nh, dph]"
    and q: "shape query = [b, n, qh, dph]"
    and fit: "n \<le> ml"
    and m: "length (shape attention_mask) \<noteq> 4"
  shows "concatenate_to_cache (Some c) query key value attention_mask = Inl AssertionError"
proof -
  let ?s = "sint (cache_index c)"
  obtain key' where dk: "dynamic_update_slice (cache_key c) key [0, ?s, 0, 0] = Inr key'"
    using dus_rank4[OF kc k fit] by blast
  obtain value' where dv: "dynamic_update_slice (cache_value c) value [0, ?s, 0, 0] = Inr value'"
    using dus_rank4[OF vc v fit] by blast
  have cm: "combine_masks
              \<lparr>shape = [b, 1, n, ml],
               elem = (\<lambda>idx. int (idx ! 3) < sint (cache_index c + word_of_nat n))\<rparr>
              attention_mask = Inl AssertionError"
    using m by (simp add: combine_masks_def)
  show ?thesis
    using dk dv cm
    by (simp add: concatenate_to_cache_def kc vc k v q Let_def numeral_3_eq_3)
qed

lemma attention_cache_step_mask_rank:
  assumes kc: "shape (cache_key c) = [b, ml, nh, dph]"
    and vc: "shape (cache_value c) = [b, ml, nh, dph]"
    and k: "shape key = [b, n, nh, dph]"
    and v: "shape value = [b, n, nh, dph]"
    and q: "shape query = [b, n, qh, dph]"
    and fit: "n \<le> ml"
    and m: "length (shape attention_mask) = 2"
  shows "attention_cache_step (Some c) flag query key value attention_mask = Inl AssertionError"
proof -
  have "length (shape attention_mask) \<noteq> 4"
    using m by simp
  from concatenate_to_cache_mask_rank[OF kc vc k v q fit this]
  show ?thesis
    by (simp add: attention_cache_step_def)
qed

text \<open>
  Claim C5. The claim is what the cache is for, and the code does not do it: a forward call
  with a cache never reaches the update of the mask. Line 455 hands
  \<^verbatim>\<open>concatenate_to_cache_\<close> the attention mask with the two axes it has in every caller of
  this file, \<^verbatim>\<open>combine_masks\<close> on line 391 asserts that it has the four axes of the pad
  mask, and the call raises \<^verbatim>\<open>AssertionError\<close>; the broadcast to four axes stands on
  lines 470 and 471, after the call. So for every cache of shape (b, ml, nh, dph), new
  keys and values of shape (b, n, nh, dph) with \<open>n \<le> ml\<close>, a query with \<open>n\<close> positions and
  every mask with two axes, the cached call fails. In the scenario of the claim (the
  cache that \<^verbatim>\<open>init_cache\<close> creates for batch 1 and length 8, then a single-token call
  with the default mask or with the mask of \<^verbatim>\<open>prepare_inputs_for_generation\<close>) the first
  call already raises, and the cursor never leaves 0.
\<close>

theorem cached_call_with_two_axis_mask_raises:
  assumes "shape (cache_key c) = [b, ml, nh, dph]"
    and "shape (cache_value c) = [b, ml, nh, dph]"
    and "shape key = [b, n, nh, dph]"
    and "shape value = [b, n, nh, dph]"
    and "shape query = [b, n, qh, dph]"
    and "n \<le> ml"
    and "length (shape attention_mask) = 2"
  shows "attention_cache_step (Some c) flag query key value attention_mask = Inl AssertionError"
  using assms by (rule attention_cache_step_mask_rank)

theorem cached_call_with_two_axis_mask_raises_witness:
  "sint (cache_index (init_cache_variables [1, 8, 4, 16])) = 0
   \<and> attention_cache_step (Some (init_cache_variables [1, 8, 4, 16])) False
        \<lparr>shape = [1, 1, 4, 16], elem = (\<lambda>idx. 5)\<rparr> \<lparr>shape = [1, 1, 4, 16], elem = (\<lambda>idx. 5)\<rparr>
        \<lparr>shape = [1, 1, 4, 16], elem = (\<lambda>idx. 5)\<rparr> (default_attention_mask 1 1)
      = Inl AssertionError
   \<and> attention_cache_step (Some (init_cache_variables [1, 8, 4, 16])) False
        \<lparr>shape = [1, 1, 4, 16], elem = (\<lambda>idx. 5)\<rparr> \<lparr>shape = [1, 1, 4, 16], elem = (\<lambda>idx. 5)\<rparr>
        \<lparr>shape = [1, 1, 4, 16], elem = (\<lambda>idx. 5)\<rparr> (extended_attention_mask 1 8)
      = Inl AssertionError"
proof -
  let ?c = "init_cache_variables [1, 8, 4, 16]"
  let ?t = "\<lparr>shape = [1, 1, 4, 16], elem = (\<lambda>idx. 5::real)\<rparr>"
  have kc: "shape (cache_key ?c) = [1, 8, 4, 16]"
    and vc: "shape (cache_value ?c) = [1, 8, 4, 16]"
    by (simp_all add: init_cache_variables_def jnp_zeros_def)
  have t: "shape ?t = [1, 1, 4, 16]"
    by simp
  have fit: "(1::nat) \<le> 8"
    by simp
  have m1: "length (shape (default_attention_mask 1 1)) = 2"
    by (simp add: default_attention_mask_def all_valid_def)
  have m2: "length (shape (extended_attention_mask 1 8)) = 2"
    by (simp add: extended_attention_mask_def all_valid_def)
  have i: "sint (cache_index ?c) = 0"
    by (simp add: init_cache_variables_def)
  show ?thesis
    using i cached_call_with_two_axis_mask_raises[OF kc vc t t t fit m1, of False]
      cached_call_with_two_axis_mask_raises[OF kc vc t t t fit m2, of False]
    by simp
qed

lemma cache_overflow_clamped:
  assumes kc: "shape (cache_key c) = [b, ml, nh, dph]"
    and vc: "shape (cache_value c) = [b, ml, nh, dph]"
    and k: "shape key = [b, n, nh, dph]"
    and v: "shape value = [b, n, nh, dph]"
    and q: "shape query = [b, n, qh, dph]"
    and fit: "n \<le> ml"
    and mk: "list_all2 (\<lambda>a m. m = a \<or> m = 1) [b, 1, n, ml] (shape attention_mask)"
    and c0: "0 \<le> sint (cache_index c)"
    and c1: "sint (cache_index c) + int n < 2 ^ 31"
    and over: "int ml < sint (cache_index c) + int n"
  shows "\<exists>c' mask'.
      concatenate_to_cache (Some c) query key value attention_mask
        = Inr (c', query, cache_key c', cache_value c', mask')
      \<and> shape (cache_key c') = [b, ml, nh, dph]
      \<and> shape (cache_value c') = [b, ml, nh, dph]
      \<and> sint (cache_index c') = sint (cache_index c) + int n
      \<and> int ml < sint (cache_index c')
      \<and> (\<forall>i j h d. i < b \<and> j < ml \<and> h < nh \<and> d < dph \<longrightarrow>
            elem (cache_key c') [i, j, h, d]
              = (if ml - n \<le> j then elem key [i, j - (ml - n), h, d]
                 else elem (cache_key c) [i, j, h, d]))
      \<and> (\<forall>i j h d. i < b \<and> j < ml \<and> h < nh \<and> d < dph \<longrightarrow>
            elem (cache_value c') [i, j, h, d]
              = (if ml - n \<le> j then elem value [i, j - (ml - n), h, d]
                 else elem (cache_value c) [i, j, h, d]))"
proof -
  have p: "clamp_start (sint (cache_index c)) ml n = ml - n"
    using clamp_start_nonneg[OF c0 fit] over fit by (simp add: min_def)
  from cache_update_general[OF kc vc k v q fit mk]
  obtain c' mask' where *:
      "concatenate_to_cache (Some c) query key value attention_mask
        = Inr (c', query, cache_key c', cache_value c', mask')"
      "cache_index c' = cache_index c + word_of_nat n"
      "shape (cache_key c') = [b, ml, nh, dph]"
      "shape (cache_value c') = [b, ml, nh, dph]"
      "\<forall>i j h d. i < b \<and> h < nh \<and> d < dph \<longrightarrow>
            elem (cache_key c') [i, j, h, d]
              = (if clamp_start (sint (cache_index c)) ml n \<le> j
                    \<and> j < clamp_start (sint (cache_index c)) ml n + n
                 then elem key [i, j - clamp_start (sint (cache_index c)) ml n, h, d]
                 else elem (cache_key c) [i, j, h, d])"
      "\<forall>i j h d. i < b \<and> h < nh \<and> d < dph \<longrightarrow>
            elem (cache_value c') [i, j, h, d]
              = (if clamp_start (sint (cache_index c)) ml n \<le> j
                    \<and> j < clamp_start (sint (cache_index c)) ml n + n
                 then elem value [i, j - clamp_start (sint (cache_index c)) ml n, h, d]
                 else elem (cache_value c) [i, j, h, d])"
    by (elim exE conjE) (rule that; assumption)
  have s: "sint (cache_index c') = sint (cache_index c) + int n"
    unfolding *(2) by (rule sint_advance[OF c0 c1])
  have ke: "\<forall>i j h d. i < b \<and> j < ml \<and> h < nh \<and> d < dph \<longrightarrow>
            elem (cache_key c') [i, j, h, d]
              = (if ml - n \<le> j then elem key [i, j - (ml - n), h, d]
                 else elem (cache_key c) [i, j, h, d])"
    using *(5) fit unfolding p by auto
  have ve: "\<forall>i j h d. i < b \<and> j < ml \<and> h < nh \<and> d < dph \<longrightarrow>
            elem (cache_value c') [i, j, h, d]
              = (if ml - n \<le> j then elem value [i, j - (ml - n), h, d]
                 else elem (cache_value c) [i, j, h, d])"
    using *(6) fit unfolding p by auto
  have o: "int ml < sint (cache_index c')"
    using s over by simp
  show ?thesis
    apply (rule exI[of _ c'])
    apply (rule exI[of _ mask'])
    apply (intro conjI)
          apply (rule *(1))
         apply (rule *(3))
        apply (rule *(4))
       apply (rule s)
      apply (rule o)
     apply (rule ke)
    apply (rule ve)
    done
qed

text \<open>
  Claim C6, as amended. The file has no \<^verbatim>\<open>CacheBoundsError\<close> and no check of the cursor
  against the cache length. Take a cache of shape (b, ml, nh, dph), new keys and values of
  shape (b, n, nh, dph) with \<open>n \<le> ml\<close>, a query of shape (b, n, qh, dph), and a cursor
  that is not negative, with cursor plus \<open>n\<close> below \<open>2^31\<close> and above the cache length
  \<open>ml\<close>. If the supplied mask has four axes, the second of length 1 and each other of
  length 1 or of the length of that axis in (b, 1, n, ml), the call returns: the cache
  keeps its shape, the new keys and values are written into the last \<open>n\<close> slots \<open>ml - n\<close>
  to \<open>ml - 1\<close> over what was stored there, and the cursor is advanced by \<open>n\<close> to a value
  beyond the cache length. If the supplied mask does not have four axes, as the masks
  with two axes that this file builds, the call raises \<^verbatim>\<open>AssertionError\<close>, as it does
  without an overflow.
\<close>

theorem cache_overflow_is_clamped:
  assumes kc: "shape (cache_key c) = [b, ml, nh, dph]"
    and vc: "shape (cache_value c) = [b, ml, nh, dph]"
    and k: "shape key = [b, n, nh, dph]"
    and v: "shape value = [b, n, nh, dph]"
    and q: "shape query = [b, n, qh, dph]"
    and fit: "n \<le> ml"
    and c0: "0 \<le> sint (cache_index c)"
    and c1: "sint (cache_index c) + int n < 2 ^ 31"
    and over: "int ml < sint (cache_index c) + int n"
  shows "(list_all2 (\<lambda>a m. m = a \<or> m = 1) [b, 1, n, ml] (shape attention_mask) \<longrightarrow>
      (\<exists>c' mask'.
        concatenate_to_cache (Some c) query key value attention_mask
          = Inr (c', query, cache_key c', cache_value c', mask')
        \<and> shape (cache_key c') = [b, ml, nh, dph]
        \<and> shape (cache_value c') = [b, ml, nh, dph]
        \<and> sint (cache_index c') = sint (cache_index c) + int n
        \<and> int ml < sint (cache_index c')
        \<and> (\<forall>i j h d. i < b \<and> j < ml \<and> h < nh \<and> d < dph \<longrightarrow>
              elem (cache_key c') [i, j, h, d]
                = (if ml - n \<le> j then elem key [i, j - (ml - n), h, d]
                   else elem (cache_key c) [i, j, h, d]))
        \<and> (\<forall>i j h d. i < b \<and> j < ml \<and> h < nh \<and> d < dph \<longrightarrow>
              elem (cache_value c') [i, j, h, d]
                = (if ml - n \<le> j then elem value [i, j - (ml - n), h, d]
                   else elem (cache_value c) [i, j, h, d]))))
    \<and> (length (shape attention_mask) \<noteq> 4 \<longrightarrow>
         concatenate_to_cache (Some c) query key value attention_mask = Inl AssertionError)"
proof (intro conjI impI)
  assume mk: "list_all2 (\<lambda>a m. m = a \<or> m = 1) [b, 1, n, ml] (shape attention_mask)"
  show "\<exists>c' mask'.
        concatenate_to_cache (Some c) query key value attention_mask
          = Inr (c', query, cache_key c', cache_value c', mask')
        \<and> shape (cache_key c') = [b, ml, nh, dph]
        \<and> shape (cache_value c') = [b, ml, nh, dph]
        \<and> sint (cache_index c') = sint (cache_index c) + int n
        \<and> int ml < sint (cache_index c')
        \<and> (\<forall>i j h d. i < b \<and> j < ml \<and> h < nh \<and> d < dph \<longrightarrow>
              elem (cache_key c') [i, j, h, d]
                = (if ml - n \<le> j then elem key [i, j - (ml - n), h, d]
                   else elem (cache_key c) [i, j, h, d]))
        \<and> (\<forall>i j h d. i < b \<and> j < ml \<and> h < nh \<and> d < dph \<longrightarrow>
              elem (cache_value c') [i, j, h, d]
                = (if ml - n \<le> j then elem value [i, j - (ml - n), h, d]
                   else elem (cache_value c) [i, j, h, d]))"
    by (rule cache_overflow_clamped[OF kc vc k v q fit mk c0 c1 over])
next
  assume m: "length (shape attention_mask) \<noteq> 4"
  show "concatenate_to_cache (Some c) query key value attention_mask = Inl AssertionError"
    by (rule concatenate_to_cache_mask_rank[OF kc vc k v q fit m])
qed

theorem cache_overflow_is_clamped_witness:
  "shape (cache_key \<lparr>cache_key = jnp_zeros [1, 8, 4, 16], cache_value = jnp_zeros [1, 8, 4, 16],
                     cache_index = 8\<rparr>) = [1, 8, 4, 16]
   \<and> shape \<lparr>shape = [1, 1, 4, 16], elem = (\<lambda>idx. 5::real)\<rparr> = [1, 1, 4, 16]
   \<and> (1::nat) \<le> 8
   \<and> list_all2 (\<lambda>a m. m = a \<or> m = 1) [1, 1, 1, 8] (shape (all_valid [1, 1, 1, 8]))
   \<and> length (shape (extended_attention_mask 1 8)) = 2
   \<and> 0 \<le> sint (8 :: 32 word)
   \<and> sint (8 :: 32 word) + int 1 < 2 ^ 31
   \<and> int 8 < sint (8 :: 32 word) + int 1
   \<and> (\<exists>c' mask'.
        concatenate_to_cache
          (Some \<lparr>cache_key = jnp_zeros [1, 8, 4, 16], cache_value = jnp_zeros [1, 8, 4, 16],
                 cache_index = 8\<rparr>)
          \<lparr>shape = [1, 1, 4, 16], elem = (\<lambda>idx. 5)\<rparr> \<lparr>shape = [1, 1, 4, 16], elem = (\<lambda>idx. 5)\<rparr>
          \<lparr>shape = [1, 1, 4, 16], elem = (\<lambda>idx. 5)\<rparr> (all_valid [1, 1, 1, 8])
          = Inr (c', \<lparr>shape = [1, 1, 4, 16], elem = (\<lambda>idx. 5)\<rparr>, cache_key c',
                 cache_value c', mask')
        \<and> shape (cache_key c') = [1, 8, 4, 16]
        \<and> sint (cache_index c') = 9)
   \<and> concatenate_to_cache
        (Some \<lparr>cache_key = jnp_zeros [1, 8, 4, 16], cache_value = jnp_zeros [1, 8, 4, 16],
               cache_index = 8\<rparr>)
        \<lparr>shape = [1, 1, 4, 16], elem = (\<lambda>idx. 5)\<rparr> \<lparr>shape = [1, 1, 4, 16], elem = (\<lambda>idx. 5)\<rparr>
        \<lparr>shape = [1, 1, 4, 16], elem = (\<lambda>idx. 5)\<rparr> (extended_attention_mask 1 8)
      = Inl AssertionError"
proof -
  let ?c = "\<lparr>cache_key = jnp_zeros [1, 8, 4, 16], cache_value = jnp_zeros [1, 8, 4, 16],
             cache_index = 8 :: 32 word\<rparr>"
  let ?t = "\<lparr>shape = [1, 1, 4, 16], elem = (\<lambda>idx. 5::real)\<rparr>"
  have kc: "shape (cache_key ?c) = [1, 8, 4, 16]"
    and vc: "shape (cache_value ?c) = [1, 8, 4, 16]"
    by (simp_all add: jnp_zeros_def)
  have c0: "0 \<le> sint (cache_index ?c)"
    and c1: "sint (cache_index ?c) + int 1 < 2 ^ 31"
    and over: "int 8 < sint (cache_index ?c) + int 1"
    by simp_all
  have t: "shape ?t = [1, 1, 4, 16]"
    by simp
  have fit: "(1::nat) \<le> 8"
    by simp
  have mk: "list_all2 (\<lambda>a m. m = a \<or> m = 1) [1, 1, 1, 8] (shape (all_valid [1, 1, 1, 8]))"
    by (simp add: all_valid_def)
  have m2: "length (shape (extended_attention_mask 1 8)) = 2"
    by (simp add: extended_attention_mask_def all_valid_def)
  then have m4: "length (shape (extended_attention_mask 1 8)) \<noteq> 4"
    by simp
  note th = cache_overflow_is_clamped[OF kc vc t t t fit c0 c1 over]
  from th[of "all_valid [1, 1, 1, 8]"] mk
  have "\<exists>c' mask'.
        concatenate_to_cache (Some ?c) ?t ?t ?t (all_valid [1, 1, 1, 8])
          = Inr (c', ?t, cache_key c', cache_value c', mask')
        \<and> shape (cache_key c') = [1, 8, 4, 16]
        \<and> shape (cache_value c') = [1, 8, 4, 16]
        \<and> sint (cache_index c') = sint (cache_index ?c) + int 1
        \<and> int 8 < sint (cache_index c')
        \<and> (\<forall>i j h d. i < 1 \<and> j < 8 \<and> h < 4 \<and> d < 16 \<longrightarrow>
              elem (cache_key c') [i, j, h, d]
                = (if 8 - 1 \<le> j then elem ?t [i, j - (8 - 1), h, d]
                   else elem (cache_key ?c) [i, j, h, d]))
        \<and> (\<forall>i j h d. i < 1 \<and> j < 8 \<and> h < 4 \<and> d < 16 \<longrightarrow>
              elem (cache_value c') [i, j, h, d]
                = (if 8 - 1 \<le> j then elem ?t [i, j - (8 - 1), h, d]
                   else elem (cache_value ?c) [i, j, h, d]))"
    by (rule conjunct1[THEN mp])
  then obtain c' mask' where *:
      "concatenate_to_cache (Some ?c) ?t ?t ?t (all_valid [1, 1, 1, 8])
        = Inr (c', ?t, cache_key c', cache_value c', mask')"
      "shape (cache_key c') = [1, 8, 4, 16]"
      "sint (cache_index c') = sint (cache_index ?c) + int 1"
    by (elim exE conjE) (rule that; assumption)
  have s: "sint (cache_index c') = 9"
    using *(3) by simp
  have r: "concatenate_to_cache (Some ?c) ?t ?t ?t (extended_attention_mask 1 8)
             = Inl AssertionError"
    using th[of "extended_attention_mask 1 8"] m4 by (rule conjunct2[THEN mp])
  show ?thesis
  proof (intro conjI)
    show "\<exists>c' mask'.
        concatenate_to_cache (Some ?c) ?t ?t ?t (all_valid [1, 1, 1, 8])
          = Inr (c', ?t, cache_key c', cache_value c', mask')
        \<and> shape (cache_key c') = [1, 8, 4, 16]
        \<and> sint (cache_index c') = 9"
      apply (rule exI[of _ c'])
      apply (rule exI[of _ mask'])
      apply (intro conjI)
        apply (rule *(1))
       apply (rule *(2))
      apply (rule s)
      done
    show "shape (cache_key ?c) = [1, 8, 4, 16]"
      by (rule kc)
    show "concatenate_to_cache (Some ?c) ?t ?t ?t (extended_attention_mask 1 8)
             = Inl AssertionError"
      by (rule r)
  qed (use t fit mk m2 c0 c1 over in simp_all)
qed

text \<open>
  Claim C6 as stated fails for a full cache of length 8 and one new token. With a mask of
  four axes the call returns, the cursor becomes 9, and the new key has overwritten slot 7.
  With the mask of two axes that \<^verbatim>\<open>prepare_inputs_for_generation\<close> builds the call raises
  \<^verbatim>\<open>AssertionError\<close>, and it raises the same for an empty cache, where nothing overflows.
\<close>

theorem cache_overflow_counterexample:
  "(case concatenate_to_cache
          (Some \<lparr>cache_key = jnp_zeros [1, 8, 4, 16], cache_value = jnp_zeros [1, 8, 4, 16],
                 cache_index = 8\<rparr>)
          \<lparr>shape = [1, 1, 4, 16], elem = (\<lambda>idx. 5)\<rparr> \<lparr>shape = [1, 1, 4, 16], elem = (\<lambda>idx. 5)\<rparr>
          \<lparr>shape = [1, 1, 4, 16], elem = (\<lambda>idx. 5)\<rparr> (all_valid [1, 1, 1, 8]) of
      Inl e \<Rightarrow> False
    | Inr r \<Rightarrow> sint (cache_index (fst r)) = 9
        \<and> shape (cache_key (fst r)) = [1, 8, 4, 16]
        \<and> elem (cache_key (fst r)) [0, 7, 0, 0] = 5)
   \<and> concatenate_to_cache
        (Some \<lparr>cache_key = jnp_zeros [1, 8, 4, 16], cache_value = jnp_zeros [1, 8, 4, 16],
               cache_index = 8\<rparr>)
        \<lparr>shape = [1, 1, 4, 16], elem = (\<lambda>idx. 5)\<rparr> \<lparr>shape = [1, 1, 4, 16], elem = (\<lambda>idx. 5)\<rparr>
        \<lparr>shape = [1, 1, 4, 16], elem = (\<lambda>idx. 5)\<rparr> (extended_attention_mask 1 8)
      = Inl AssertionError
   \<and> concatenate_to_cache
        (Some \<lparr>cache_key = jnp_zeros [1, 8, 4, 16], cache_value = jnp_zeros [1, 8, 4, 16],
               cache_index = 0\<rparr>)
        \<lparr>shape = [1, 1, 4, 16], elem = (\<lambda>idx. 5)\<rparr> \<lparr>shape = [1, 1, 4, 16], elem = (\<lambda>idx. 5)\<rparr>
        \<lparr>shape = [1, 1, 4, 16], elem = (\<lambda>idx. 5)\<rparr> (extended_attention_mask 1 8)
      = Inl AssertionError"
  by (simp add: cache_eval extended_attention_mask_def)

end
